theory Spec2Isabelle
  imports Main "HOL-Library.Word" "HOL-Library.Finite_Map"
begin

section \<open>The SparkApplication controller (pkg/controller/controller.go)\<close>

text \<open>
  A shallow embedding of the reconciliation engine of the controller: the status updater
  with its bounded retry loop, the in-memory registry \<open>runningApps\<close>, the submission
  dispatcher, the three state-update reducers and the restart orchestrator.

  Every handler of the source runs under the controller's mutex, so each one is a
  sequential state transformer on the controller state. Everything outside the process
  (the API server behind the CRD client and the kube client, the clock) is an abstract
  world \<open>'w\<close>; the operations on it are the fields of an environment record.
\<close>

subsection \<open>Data model\<close>

text \<open>
  Modelled from the spec: the declarations of package v1alpha1 are not part of the source
  file. \<open>ApplicationStateType\<close> is a string type there; the spec lists its six named
  values, and \<open>EmptyState\<close> is the empty string, the zero value that
  \<open>driverPodPhaseToApplicationState\<close> returns by default and that a cleared status
  carries.
\<close>

datatype ApplicationStateType =
    EmptyState
  | NewState
  | SubmittedState
  | RunningState
  | CompletedState
  | FailedState
  | FailedSubmissionState

text \<open>
  Modelled from the spec: the worker states of package v1alpha1
  (\<open>Pending | Running | Completed | Failed | Unknown\<close>).
\<close>

datatype ExecutorState =
    ExecutorPendingState
  | ExecutorRunningState
  | ExecutorCompletedState
  | ExecutorFailedState
  | ExecutorUnknownState

text \<open>
  Modelled from the spec: the restart policies of package v1alpha1
  (\<open>Never | OnFailure | Always | Undefined\<close>).
\<close>

datatype RestartPolicy = Undefined | Never | OnFailure | Always

text \<open>
  \<open>apiv1.PodPhase\<close> of the Kubernetes API is a string type; its constants have the
  values below, and any other string is a phase the switch of
  \<open>driverPodPhaseToApplicationState\<close> sends to its default branch.
\<close>

type_synonym PodPhase = string

definition PodPending :: PodPhase where "PodPending = ''Pending''"
definition PodRunning :: PodPhase where "PodRunning = ''Running''"
definition PodSucceeded :: PodPhase where "PodSucceeded = ''Succeeded''"
definition PodFailed :: PodPhase where "PodFailed = ''Failed''"
definition PodUnknown :: PodPhase where "PodUnknown = ''Unknown''"

text \<open>
  A timestamp (\<open>metav1.Time\<close>) is a count of nanoseconds from the zero instant;
  \<open>IsZero\<close> holds of the zero instant only.
\<close>

type_synonym Time = int

definition IsZero :: "Time \<Rightarrow> bool" where
  "IsZero t = (t = 0)"

record ApplicationState =
  State :: ApplicationStateType
  ErrorMessage :: string

record DriverInfo =
  WebUIServiceName :: string
  WebUIPort :: "32 word"
  WebUIAddress :: string
  PodName :: string

text \<open>
  \<open>ExecutorState\<close> is a Go map, which may be nil: \<open>None\<close> is the nil map,
  \<open>Some m\<close> an allocated one with the finite map \<open>m\<close> as its content.
  \<open>reflect.DeepEqual\<close> tells a nil map from an allocated empty one, and so does
  equality here.
\<close>

record SparkApplicationStatus =
  AppID :: string
  SubmissionTime :: Time
  CompletionTime :: Time
  DriverInfo :: DriverInfo
  AppState :: ApplicationState
  ExecutorState :: "(string, ExecutorState) fmap option"

record SparkApplicationSpec =
  RestartPolicy :: RestartPolicy
  SubmissionByUser :: bool

record SparkApplication =
  Name :: string
  Namespace :: string
  UID :: string
  Spec :: SparkApplicationSpec
  Status :: SparkApplicationStatus

text \<open>The zero value \<open>v1alpha1.SparkApplicationStatus{}\<close>.\<close>

definition emptyStatus :: SparkApplicationStatus where
  "emptyStatus =
     \<lparr>AppID = [], SubmissionTime = 0, CompletionTime = 0,
      DriverInfo = \<lparr>WebUIServiceName = [], WebUIPort = 0, WebUIAddress = [], PodName = []\<rparr>,
      AppState = \<lparr>State = EmptyState, ErrorMessage = []\<rparr>,
      ExecutorState = None\<rparr>"

subsection \<open>Effects\<close>

text \<open>
  Errors of the remote store, as the spec's interface names them
  (\<open>update(record) -> record | VersionConflict | Error\<close>,
  \<open>get(name) -> record | NotFound\<close>).
\<close>

datatype error = VersionConflict | NotFound | Error string

text \<open>
  The steps of the status updater, in the order it takes them: a call of the mutation
  function, \<open>client.Update(toUpdate)\<close> with the record sent, and
  \<open>client.Get(name)\<close> with the namespace of the client and the name.
\<close>

datatype call =
    UpdateFuncCall
  | ClientUpdate SparkApplication
  | ClientGet string string

text \<open>The \<open>glog.Errorf\<close> lines of the source, by their format string.\<close>

datatype logline =
    FailedToGetSparkApplication string error
  | FailedToBuildSubmissionCommand string error
  | FailedToGetNode string

text \<open>An event handed to the recorder: its reason and the name of the application.\<close>

datatype event = Event string string

text \<open>
  A request handed to the submission runner: \<open>newSubmission(submissionCmdArgs, app)\<close>.
\<close>

datatype submission = Submission "string list" SparkApplication

datatype NodeAddressType = NodeHostName | NodeExternalIP | NodeInternalIP

record 'w controller =
  runningApps :: "(string, SparkApplication) fmap"
  world :: 'w
  calls :: "call list"
  glog :: "logline list"
  recorder :: "event list"
  runner :: "submission list"

text \<open>
  The collaborators. \<open>clientUpdate\<close> and \<open>clientGet\<close> are the CRD client,
  \<open>nodesGet\<close> is \<open>kubeClient.CoreV1().Nodes().Get\<close> (giving the addresses of the
  node), \<open>timeNow\<close> is \<open>time.Now().UnixNano()\<close>. Each of them is a call to the
  outside: it returns its answer together with the world after the call, so two calls
  with the same arguments may be answered differently.

  Modelled from the spec: \<open>createSparkUIService\<close>, \<open>buildSubmissionCommandArgs\<close>
  and \<open>util.NewHash32\<close> are functions of this repository outside the source file; they
  are parameters here. \<open>createSparkUIService\<close> works on the working copy and the
  cluster, \<open>buildSubmissionCommandArgs\<close> returns a Go pair of arguments and error, and
  \<open>hash32\<close> is the 32-bit hash of the bytes written to the hasher.
\<close>

record 'w env =
  clientUpdate :: "'w \<Rightarrow> SparkApplication \<Rightarrow> (error + SparkApplication) \<times> 'w"
  clientGet :: "'w \<Rightarrow> string \<Rightarrow> string \<Rightarrow> (error + SparkApplication) \<times> 'w"
  nodesGet :: "'w \<Rightarrow> string \<Rightarrow> (error + (NodeAddressType \<times> string) list) \<times> 'w"
  timeNow :: "'w \<Rightarrow> int \<times> 'w"
  createSparkUIService :: "SparkApplication \<Rightarrow> 'w \<Rightarrow> SparkApplication \<times> 'w"
  buildSubmissionCommandArgs :: "SparkApplication \<Rightarrow> string list \<times> error option"
  hash32 :: "string \<Rightarrow> 32 word"

subsection \<open>The status updater\<close>

definition maximumUpdateRetries :: nat where
  "maximumUpdateRetries = 3"

type_synonym 'w updateFunc =
  "SparkApplication \<Rightarrow> 'w controller \<Rightarrow> SparkApplication \<times> 'w controller"

text \<open>
  The loop of \<open>updateSparkApplicationWithRetries\<close> from iteration \<open>i\<close> on. The result
  \<open>None\<close> is the nil the source returns. Records are values here: the working copy
  \<open>app.DeepCopy()\<close> is the record itself, and the mutation function returns the mutated
  copy where the source mutates it in place; the original is never touched, as in the
  source. The comparison of the two statuses is \<open>reflect.DeepEqual\<close>.
\<close>

function updateLoop ::
  "'w env \<Rightarrow> nat \<Rightarrow> SparkApplication \<Rightarrow> SparkApplication \<Rightarrow> 'w updateFunc \<Rightarrow>
   'w controller \<Rightarrow> SparkApplication option \<times> 'w controller" where
  "updateLoop e i original toUpdate updateFunc s =
     (if i < maximumUpdateRetries then
        (case updateFunc toUpdate (s\<lparr>calls := calls s @ [UpdateFuncCall]\<rparr>) of
           (toUpdate', s1) \<Rightarrow>
             if Status original = Status toUpdate' then (None, s1)
             else
               (case clientUpdate e (world s1) toUpdate' of
                  (Inr updated, w2) \<Rightarrow>
                    (Some updated,
                     s1\<lparr>world := w2, calls := calls s1 @ [ClientUpdate toUpdate']\<rparr>)
                | (Inl err, w2) \<Rightarrow>
                    (case clientGet e w2 (Namespace toUpdate') (Name toUpdate') of
                       (Inl err', w3) \<Rightarrow>
                         (None,
                          s1\<lparr>world := w3,
                             calls := calls s1 @
                               [ClientUpdate toUpdate',
                                ClientGet (Namespace toUpdate') (Name toUpdate')],
                             glog := glog s1 @
                               [FailedToGetSparkApplication (Name toUpdate') err']\<rparr>)
                     | (Inr fetched, w3) \<Rightarrow>
                         updateLoop e (i + 1) original fetched updateFunc
                           (s1\<lparr>world := w3,
                               calls := calls s1 @
                                 [ClientUpdate toUpdate',
                                  ClientGet (Namespace toUpdate') (Name toUpdate')]\<rparr>))))
      else (None, s))"
  by pat_completeness auto
termination
  by (relation "measure (\<lambda>(e, i, original, toUpdate, updateFunc, s). maximumUpdateRetries - i)")
     auto

declare updateLoop.simps [simp del]

definition updateSparkApplicationWithRetries ::
  "'w env \<Rightarrow> SparkApplication \<Rightarrow> SparkApplication \<Rightarrow> 'w updateFunc \<Rightarrow>
   'w controller \<Rightarrow> SparkApplication option \<times> 'w controller" where
  "updateSparkApplicationWithRetries e original toUpdate updateFunc s =
     updateLoop e 0 original toUpdate updateFunc s"

subsection \<open>Formatting\<close>

text \<open>The verbs \<open>%d\<close> of \<open>fmt.Sprintf\<close> and \<open>strconv.FormatInt(_, 10)\<close>.\<close>

definition digitChar :: "nat \<Rightarrow> char" where
  "digitChar d = char_of (48 + d)"

fun formatNat :: "nat \<Rightarrow> string" where
  "formatNat n =
     (if n < 10 then [digitChar n] else formatNat (n div 10) @ [digitChar (n mod 10)])"

declare formatNat.simps [simp del]

definition formatInt :: "int \<Rightarrow> string" where
  "formatInt i = (if i < 0 then CHR ''-'' # formatNat (nat (- i)) else formatNat (nat i))"

subsection \<open>Helpers of the controller\<close>

text \<open>
  \<open>buildAppID\<close>: the hasher receives the name, the namespace, the UID and the decimal
  nanosecond clock reading, and the identifier is \<open><name>-<hash>\<close>.
\<close>

definition buildAppID :: "'w env \<Rightarrow> SparkApplication \<Rightarrow> 'w controller \<Rightarrow> string \<times> 'w controller" where
  "buildAppID e app s =
     (case timeNow e (world s) of
        (t, w) \<Rightarrow>
          (Name app @ ''-'' @
             formatNat (unat (hash32 e (Name app @ Namespace app @ UID app @ formatInt t))),
           s\<lparr>world := w\<rparr>))"

definition isAppTerminated :: "ApplicationStateType \<Rightarrow> bool" where
  "isAppTerminated appState = (appState = CompletedState \<or> appState = FailedState)"

definition driverPodPhaseToApplicationState :: "PodPhase \<Rightarrow> ApplicationStateType" where
  "driverPodPhaseToApplicationState podPhase =
     (if podPhase = PodPending then SubmittedState
      else if podPhase = PodRunning then RunningState
      else if podPhase = PodSucceeded then CompletedState
      else if podPhase = PodFailed then FailedState
      else EmptyState)"

text \<open>The loop of \<open>getNodeExternalIP\<close> over \<open>node.Status.Addresses\<close>.\<close>

fun firstExternalIP :: "(NodeAddressType \<times> string) list \<Rightarrow> string" where
  "firstExternalIP [] = []"
| "firstExternalIP ((ty, address) # addresses) =
     (if ty = NodeExternalIP then address else firstExternalIP addresses)"

definition getNodeExternalIP :: "'w env \<Rightarrow> string \<Rightarrow> 'w controller \<Rightarrow> string \<times> 'w controller" where
  "getNodeExternalIP e nodeName s =
     (case nodesGet e (world s) nodeName of
        (Inl err, w) \<Rightarrow> ([], s\<lparr>world := w, glog := glog s @ [FailedToGetNode nodeName]\<rparr>)
      | (Inr addresses, w) \<Rightarrow> (firstExternalIP addresses, s\<lparr>world := w\<rparr>))"

subsection \<open>The submission dispatcher\<close>

text \<open>The mutation function that \<open>submitApp\<close> hands to the status updater.\<close>

definition submitAppUpdateFunc :: "'w env \<Rightarrow> bool \<Rightarrow> 'w updateFunc" where
  "submitAppUpdateFunc e resubmission toUpdate s =
     (let cleared = (if resubmission then toUpdate\<lparr>Status := emptyStatus\<rparr> else toUpdate)
      in case buildAppID e cleared s of
           (appID, s1) \<Rightarrow>
             (let withID = cleared\<lparr>Status := (Status cleared)\<lparr>AppID := appID\<rparr>\<rparr>;
                  withState =
                    withID\<lparr>Status := (Status withID)
                      \<lparr>AppState := (AppState (Status withID))\<lparr>State := NewState\<rparr>\<rparr>\<rparr>
              in case createSparkUIService e withState (world s1) of
                   (withService, w) \<Rightarrow> (withService, s1\<lparr>world := w\<rparr>)))"

definition submitApp :: "'w env \<Rightarrow> SparkApplication \<Rightarrow> bool \<Rightarrow> 'w controller \<Rightarrow> 'w controller" where
  "submitApp e app resubmission s =
     (case updateSparkApplicationWithRetries e app app (submitAppUpdateFunc e resubmission) s of
        (None, s1) \<Rightarrow> s1
      | (Some updatedApp, s1) \<Rightarrow>
          (let s2 = s1\<lparr>runningApps := fmupd (AppID (Status updatedApp)) updatedApp (runningApps s1)\<rparr>
           in case buildSubmissionCommandArgs e updatedApp of
                (submissionCmdArgs, err) \<Rightarrow>
                  (let s3 = (case err of
                               None \<Rightarrow> s2
                             | Some er \<Rightarrow>
                                 s2\<lparr>glog := glog s2 @
                                      [FailedToBuildSubmissionCommand (Name updatedApp) er]\<rparr>)
                   in if \<not> SubmissionByUser (Spec updatedApp)
                      then s3\<lparr>runner := runner s3 @ [Submission submissionCmdArgs updatedApp]\<rparr>
                      else s3)))"

definition onAdd :: "'w env \<Rightarrow> SparkApplication \<Rightarrow> 'w controller \<Rightarrow> 'w controller" where
  "onAdd e app s =
     submitApp e app False
       (s\<lparr>recorder := recorder s @ [Event ''SparkApplicationSubmission'' (Name app)]\<rparr>)"

definition onDelete :: "SparkApplication \<Rightarrow> 'w controller \<Rightarrow> 'w controller" where
  "onDelete app s =
     (let s1 = s\<lparr>recorder := recorder s @ [Event ''SparkApplicationDeletion'' (Name app)]\<rparr>
      in s1\<lparr>runningApps := fmdrop (AppID (Status app)) (runningApps s1)\<rparr>)"

subsection \<open>The restart orchestrator\<close>

definition handleRestart :: "'w env \<Rightarrow> SparkApplication \<Rightarrow> 'w controller \<Rightarrow> 'w controller" where
  "handleRestart e app s =
     (if RestartPolicy (Spec app) = Never \<or> RestartPolicy (Spec app) = Undefined then s
      else if (State (AppState (Status app)) = FailedState \<and> RestartPolicy (Spec app) = OnFailure)
              \<or> RestartPolicy (Spec app) = Always
      then submitApp e app True
             (s\<lparr>recorder := recorder s @ [Event ''SparkApplicationResubmission'' (Name app)]\<rparr>)
      else s)"

subsection \<open>The state-update reducers\<close>

text \<open>
  The messages of the three channels. Their declarations are outside the source file; the
  fields are the ones the reducers read. The fields \<open>appID\<close>, \<open>podName\<close> and
  \<open>state\<close> occur in more than one message of the source and carry the message as a
  prefix here.
\<close>

record appStateUpdate =
  appID :: string
  submissionTime :: Time
  completionTime :: Time
  state :: ApplicationStateType
  errorMessage :: string

record driverStateUpdate =
  driverAppID :: string
  driverPodName :: string
  nodeName :: string
  podPhase :: PodPhase

record executorStateUpdate =
  executorAppID :: string
  executorPodName :: string
  executorID :: string
  executorPodState :: ExecutorState

text \<open>The mutation function of \<open>processSingleDriverStateUpdate\<close>.\<close>

definition driverUpdateFunc :: "'w env \<Rightarrow> driverStateUpdate \<Rightarrow> 'w updateFunc" where
  "driverUpdateFunc e update toUpdate s =
     (let named =
            toUpdate\<lparr>Status := (Status toUpdate)
              \<lparr>DriverInfo := (DriverInfo (Status toUpdate))\<lparr>PodName := driverPodName update\<rparr>\<rparr>\<rparr>
      in case (if nodeName update \<noteq> [] then
                 (case getNodeExternalIP e (nodeName update) s of
                    (nodeIP, s1) \<Rightarrow>
                      (if nodeIP \<noteq> [] then
                         named\<lparr>Status := (Status named)
                           \<lparr>DriverInfo := (DriverInfo (Status named))
                              \<lparr>WebUIAddress :=
                                 nodeIP @ '':'' @
                                 formatInt (sint (WebUIPort (DriverInfo (Status named))))\<rparr>\<rparr>\<rparr>
                       else named, s1))
               else (named, s)) of
           (addressed, s2) \<Rightarrow>
             (let appState = driverPodPhaseToApplicationState (podPhase update)
              in (if isAppTerminated appState then
                    addressed\<lparr>Status := (Status addressed)
                      \<lparr>AppState := (AppState (Status addressed))\<lparr>State := appState\<rparr>\<rparr>\<rparr>
                  else addressed, s2)))"

definition processSingleDriverStateUpdate ::
  "'w env \<Rightarrow> driverStateUpdate \<Rightarrow> 'w controller \<Rightarrow> SparkApplication option \<times> 'w controller" where
  "processSingleDriverStateUpdate e update s =
     (case fmlookup (runningApps s) (driverAppID update) of
        Some app \<Rightarrow>
          (case updateSparkApplicationWithRetries e app app (driverUpdateFunc e update) s of
             (Some updated, s1) \<Rightarrow>
               (Some updated,
                s1\<lparr>runningApps := fmupd (AppID (Status updated)) updated (runningApps s1)\<rparr>)
           | (None, s1) \<Rightarrow> (None, s1))
      | None \<Rightarrow> (None, s))"

text \<open>The loop of \<open>processDriverStateUpdates\<close> over the messages of the channel.\<close>

fun processDriverStateUpdates :: "'w env \<Rightarrow> driverStateUpdate list \<Rightarrow> 'w controller \<Rightarrow> 'w controller" where
  "processDriverStateUpdates e [] s = s"
| "processDriverStateUpdates e (update # updates) s =
     (case processSingleDriverStateUpdate e update s of
        (Some updatedApp, s1) \<Rightarrow>
          (if isAppTerminated (State (AppState (Status updatedApp))) then
             processDriverStateUpdates e updates
               (handleRestart e updatedApp
                  (s1\<lparr>recorder := recorder s1 @
                        [Event ''SparkApplicationTermination'' (Name updatedApp)]\<rparr>))
           else processDriverStateUpdates e updates s1)
      | (None, s1) \<Rightarrow> processDriverStateUpdates e updates s1)"

text \<open>The mutation function of \<open>processSingleAppStateUpdate\<close>.\<close>

definition appUpdateFunc :: "appStateUpdate \<Rightarrow> 'w updateFunc" where
  "appUpdateFunc update toUpdate s =
     (let stated =
            (if \<not> isAppTerminated (State (AppState (Status toUpdate)))
                \<or> state update = FailedSubmissionState
             then toUpdate\<lparr>Status := (Status toUpdate)
                    \<lparr>AppState := (AppState (Status toUpdate))
                       \<lparr>State := state update, ErrorMessage := errorMessage update\<rparr>\<rparr>\<rparr>
             else toUpdate);
          submitted =
            (if \<not> IsZero (submissionTime update)
             then stated\<lparr>Status := (Status stated)\<lparr>SubmissionTime := submissionTime update\<rparr>\<rparr>
             else stated);
          completed =
            (if \<not> IsZero (completionTime update)
             then submitted\<lparr>Status := (Status submitted)\<lparr>CompletionTime := completionTime update\<rparr>\<rparr>
             else submitted)
      in (completed, s))"

definition processSingleAppStateUpdate :: "'w env \<Rightarrow> appStateUpdate \<Rightarrow> 'w controller \<Rightarrow> 'w controller" where
  "processSingleAppStateUpdate e update s =
     (case fmlookup (runningApps s) (appID update) of
        Some app \<Rightarrow>
          (case updateSparkApplicationWithRetries e app app (appUpdateFunc update) s of
             (Some updated, s1) \<Rightarrow>
               (let s2 = s1\<lparr>runningApps := fmupd (AppID (Status updated)) updated (runningApps s1)\<rparr>
                in if State (AppState (Status updated)) = FailedSubmissionState
                   then s2\<lparr>recorder := recorder s2 @
                             [Event ''SparkApplicationSubmissionFailure'' (Name updated)]\<rparr>
                   else s2)
           | (None, s1) \<Rightarrow> s1)
      | None \<Rightarrow> s)"

fun processAppStateUpdates :: "'w env \<Rightarrow> appStateUpdate list \<Rightarrow> 'w controller \<Rightarrow> 'w controller" where
  "processAppStateUpdates e [] s = s"
| "processAppStateUpdates e (update # updates) s =
     processAppStateUpdates e updates (processSingleAppStateUpdate e update s)"

text \<open>The mutation function of \<open>processSingleExecutorStateUpdate\<close>.\<close>

definition executorUpdateFunc :: "executorStateUpdate \<Rightarrow> 'w updateFunc" where
  "executorUpdateFunc update toUpdate s =
     (let allocated =
            (if ExecutorState (Status toUpdate) = None
             then toUpdate\<lparr>Status := (Status toUpdate)\<lparr>ExecutorState := Some fmempty\<rparr>\<rparr>
             else toUpdate);
          stored =
            (if executorPodState update \<noteq> ExecutorPendingState
             then allocated\<lparr>Status := (Status allocated)
                    \<lparr>ExecutorState :=
                       map_option (fmupd (executorPodName update) (executorPodState update))
                         (ExecutorState (Status allocated))\<rparr>\<rparr>
             else allocated)
      in (stored, s))"

definition processSingleExecutorStateUpdate ::
  "'w env \<Rightarrow> executorStateUpdate \<Rightarrow> 'w controller \<Rightarrow> 'w controller" where
  "processSingleExecutorStateUpdate e update s =
     (case fmlookup (runningApps s) (executorAppID update) of
        Some app \<Rightarrow>
          (case updateSparkApplicationWithRetries e app app (executorUpdateFunc update) s of
             (Some updated, s1) \<Rightarrow>
               s1\<lparr>runningApps := fmupd (AppID (Status updated)) updated (runningApps s1)\<rparr>
           | (None, s1) \<Rightarrow> s1)
      | None \<Rightarrow> s)"

fun processExecutorStateUpdates ::
  "'w env \<Rightarrow> executorStateUpdate list \<Rightarrow> 'w controller \<Rightarrow> 'w controller" where
  "processExecutorStateUpdates e [] s = s"
| "processExecutorStateUpdates e (update # updates) s =
     processExecutorStateUpdates e updates (processSingleExecutorStateUpdate e update s)"

subsection \<open>A concrete cluster\<close>

text \<open>
  A small world for evaluating the controller: the remote store holds one record, the
  clock advances by one nanosecond at every reading, and one node has an external address.
\<close>

record cluster =
  remoteApp :: SparkApplication
  clock :: int

definition piApp :: SparkApplication where
  "piApp =
     \<lparr>Name = ''pi'', Namespace = ''default'', UID = ''u1'',
      Spec = \<lparr>RestartPolicy = Always, SubmissionByUser = False\<rparr>,
      Status = emptyStatus\<rparr>"

text \<open>The record of a run that the driver has reported as completed.\<close>

definition completedApp :: SparkApplication where
  "completedApp =
     piApp\<lparr>Status := emptyStatus
       \<lparr>AppID := ''pi-1'', AppState := \<lparr>State = CompletedState, ErrorMessage = []\<rparr>\<rparr>\<rparr>"

definition byteSum :: "string \<Rightarrow> 32 word" where
  "byteSum bs = of_nat (sum_list (map of_char bs))"

text \<open>A store that accepts every write and returns the record written.\<close>

definition acceptingEnv :: "cluster env" where
  "acceptingEnv =
     \<lparr>clientUpdate = (\<lambda>w a. (Inr a, w\<lparr>remoteApp := a\<rparr>)),
      clientGet = (\<lambda>w ns n. (Inr (remoteApp w), w)),
      nodesGet = (\<lambda>w n. (if n = ''node-1''
                           then Inr [(NodeInternalIP, ''10.0.0.7''), (NodeExternalIP, ''35.0.0.7'')]
                           else Inl NotFound, w)),
      timeNow = (\<lambda>w. (clock w, w\<lparr>clock := clock w + 1\<rparr>)),
      createSparkUIService = (\<lambda>a w. (a, w)),
      buildSubmissionCommandArgs = (\<lambda>a. ([''--class'', Name a], None)),
      hash32 = byteSum\<rparr>"

text \<open>A store that answers every write with a version conflict.\<close>

definition conflictEnv :: "cluster env" where
  "conflictEnv = acceptingEnv\<lparr>clientUpdate := (\<lambda>w a. (Inl VersionConflict, w))\<rparr>"

text \<open>A store that rejects every write and has lost the record.\<close>

definition goneEnv :: "cluster env" where
  "goneEnv =
     acceptingEnv\<lparr>clientUpdate := (\<lambda>w a. (Inl (Error ''timeout''), w)),
                  clientGet := (\<lambda>w ns n. (Inl NotFound, w))\<rparr>"

text \<open>An accepting store whose record of the run is settled as the completed one.\<close>

definition settledEnv :: "cluster env" where
  "settledEnv = acceptingEnv\<lparr>clientGet := (\<lambda>w ns n. (Inr completedApp, w))\<rparr>"

text \<open>
  A store that takes a write only from a copy in the state of its own record, as a writer
  with a stale copy finds it, and answers any other write with a version conflict.
\<close>

definition divergedEnv :: "cluster env" where
  "divergedEnv =
     acceptingEnv\<lparr>clientUpdate :=
       (\<lambda>w a. if State (AppState (Status a)) = State (AppState (Status (remoteApp w)))
              then (Inr a, w\<lparr>remoteApp := a\<rparr>)
              else (Inl VersionConflict, w))\<rparr>"

text \<open>
  A cluster where a node lookup takes a nanosecond and the node is in the directory from
  clock reading 10 on.
\<close>

definition lateNodeEnv :: "cluster env" where
  "lateNodeEnv =
     acceptingEnv\<lparr>nodesGet :=
       (\<lambda>w n. (if clock w < 10 then Inl NotFound
               else Inr [(NodeInternalIP, ''10.0.0.7''), (NodeExternalIP, ''35.0.0.7'')],
               w\<lparr>clock := clock w + 1\<rparr>))\<rparr>"

text \<open>An accepting store with a hash that sends every input to 1.\<close>

definition collidingEnv :: "cluster env" where
  "collidingEnv = acceptingEnv\<lparr>hash32 := (\<lambda>bs. 1)\<rparr>"

text \<open>An accepting store where building the submission command fails.\<close>

definition brokenBuildEnv :: "cluster env" where
  "brokenBuildEnv =
     acceptingEnv\<lparr>buildSubmissionCommandArgs :=
       (\<lambda>a. ([], Some (Error ''no main application file'')))\<rparr>"

definition emptyController :: "cluster controller" where
  "emptyController =
     \<lparr>runningApps = fmempty, world = \<lparr>remoteApp = piApp, clock = 9\<rparr>,
      calls = [], glog = [], recorder = [], runner = []\<rparr>"

text \<open>A controller that tracks the completed run.\<close>

definition trackingController :: "cluster controller" where
  "trackingController =
     \<lparr>runningApps = fmupd ''pi-1'' completedApp fmempty,
      world = \<lparr>remoteApp = completedApp, clock = 9\<rparr>,
      calls = [], glog = [], recorder = [], runner = []\<rparr>"

text \<open>The completed run with its worker map allocated, and a controller that tracks it.\<close>

definition allocatedApp :: SparkApplication where
  "allocatedApp = completedApp\<lparr>Status := (Status completedApp)\<lparr>ExecutorState := Some fmempty\<rparr>\<rparr>"

definition allocatedController :: "cluster controller" where
  "allocatedController =
     trackingController\<lparr>runningApps := fmupd ''pi-1'' allocatedApp fmempty\<rparr>"

definition pendingExecutor :: executorStateUpdate where
  "pendingExecutor =
     \<lparr>executorAppID = ''pi-1'', executorPodName = ''pi-exec-1'', executorID = ''1'',
      executorPodState = ExecutorPendingState\<rparr>"

definition runningExecutor :: executorStateUpdate where
  "runningExecutor = pendingExecutor\<lparr>executorPodState := ExecutorRunningState\<rparr>"

text \<open>The record of the completed run after its resubmission at clock reading 9.\<close>

definition restartedApp :: SparkApplication where
  "restartedApp =
     piApp\<lparr>Status := emptyStatus
       \<lparr>AppID := ''pi-1181'', AppState := \<lparr>State = NewState, ErrorMessage = []\<rparr>\<rparr>\<rparr>"

text \<open>A run whose driver is still running, with the UI service on port 4040.\<close>

definition runningApp :: SparkApplication where
  "runningApp =
     piApp\<lparr>Status := emptyStatus
       \<lparr>AppID := ''pi-1'',
        DriverInfo := \<lparr>WebUIServiceName = ''pi-ui-svc'', WebUIPort = 4040,
                       WebUIAddress = [], PodName = []\<rparr>,
        AppState := \<lparr>State = RunningState, ErrorMessage = []\<rparr>\<rparr>\<rparr>"

text \<open>
  A controller that tracks the completed run while the store holds the run as running.
\<close>

definition divergedController :: "cluster controller" where
  "divergedController = trackingController\<lparr>world := \<lparr>remoteApp = runningApp, clock = 9\<rparr>\<rparr>"

definition submittedUpdate :: appStateUpdate where
  "submittedUpdate =
     \<lparr>appID = ''pi-1'', submissionTime = 1000, completionTime = 0,
      state = SubmittedState, errorMessage = []\<rparr>"

definition failedSubmissionUpdate :: appStateUpdate where
  "failedSubmissionUpdate =
     \<lparr>appID = ''pi-1'', submissionTime = 0, completionTime = 2000,
      state = FailedSubmissionState, errorMessage = ''spark-submit failed''\<rparr>"

definition succeededDriver :: driverStateUpdate where
  "succeededDriver =
     \<lparr>driverAppID = ''pi-1'', driverPodName = ''pi-driver'', nodeName = ''node-1'',
      podPhase = PodSucceeded\<rparr>"

definition runningDriver :: driverStateUpdate where
  "runningDriver = succeededDriver\<lparr>podPhase := PodRunning\<rparr>"

text \<open>Counting the steps of the status updater in a call log.\<close>

fun isUpdateFuncCall :: "call \<Rightarrow> bool" where
  "isUpdateFuncCall UpdateFuncCall = True"
| "isUpdateFuncCall _ = False"

fun isClientUpdate :: "call \<Rightarrow> bool" where
  "isClientUpdate (ClientUpdate _) = True"
| "isClientUpdate _ = False"

fun isClientGet :: "call \<Rightarrow> bool" where
  "isClientGet (ClientGet _ _) = True"
| "isClientGet _ = False"

definition mutations :: "call list \<Rightarrow> nat" where
  "mutations cs = length (filter isUpdateFuncCall cs)"

definition writes :: "call list \<Rightarrow> nat" where
  "writes cs = length (filter isClientUpdate cs)"

definition fetches :: "call list \<Rightarrow> nat" where
  "fetches cs = length (filter isClientGet cs)"

text \<open>
  The read \<open>app.Status.ExecutorState[pod]\<close> with its presence flag; a nil map has no
  entry for any pod.
\<close>

definition executorEntry :: "SparkApplication \<Rightarrow> string \<Rightarrow> ExecutorState option" where
  "executorEntry app pod =
     (case ExecutorState (Status app) of None \<Rightarrow> None | Some m \<Rightarrow> fmlookup m pod)"

subsection \<open>Histories of the controller\<close>

text \<open>
  Each handler holds the mutex for the whole of its work on the registry, so a history of
  the controller is a sequence of the operations below. \<open>processDriverStateUpdates\<close>
  releases the mutex between the reducer and \<open>handleRestart\<close>; the two are separate
  operations here, so that every interleaving of the source is a history.
\<close>

datatype operation =
    OnAdd SparkApplication
  | OnDelete SparkApplication
  | AppStateUpdate appStateUpdate
  | DriverStateUpdate driverStateUpdate
  | ExecutorStateUpdate executorStateUpdate
  | HandleRestart SparkApplication

fun dispatch :: "'w env \<Rightarrow> operation \<Rightarrow> 'w controller \<Rightarrow> 'w controller" where
  "dispatch e (OnAdd app) s = onAdd e app s"
| "dispatch e (OnDelete app) s = onDelete app s"
| "dispatch e (AppStateUpdate update) s = processSingleAppStateUpdate e update s"
| "dispatch e (DriverStateUpdate update) s = snd (processSingleDriverStateUpdate e update s)"
| "dispatch e (ExecutorStateUpdate update) s = processSingleExecutorStateUpdate e update s"
| "dispatch e (HandleRestart app) s = handleRestart e app s"

fun run :: "'w env \<Rightarrow> operation list \<Rightarrow> 'w controller \<Rightarrow> 'w controller" where
  "run e [] s = s"
| "run e (operation # operations) s = run e operations (dispatch e operation s)"

text \<open>A reducer or the dispatcher leaves the registry as it is or stores one record.\<close>

definition storesAtMost :: "'w controller \<Rightarrow> 'w controller \<Rightarrow> bool" where
  "storesAtMost s s' \<longleftrightarrow>
     runningApps s' = runningApps s
     \<or> (\<exists>u. runningApps s' = fmupd (AppID (Status u)) u (runningApps s))"

section \<open>Properties\<close>


subsection \<open>The steps of the retry loop\<close>

lemma updateLoop_done:
  "\<not> i < maximumUpdateRetries \<Longrightarrow> updateLoop e i original toUpdate updateFunc s = (None, s)"
  by (simp add: updateLoop.simps[of e i original toUpdate updateFunc s])

lemma updateLoop_unchanged:
  "i < maximumUpdateRetries \<Longrightarrow>
   updateFunc toUpdate (s\<lparr>calls := calls s @ [UpdateFuncCall]\<rparr>) = (toUpdate', s1) \<Longrightarrow>
   Status original = Status toUpdate' \<Longrightarrow>
   updateLoop e i original toUpdate updateFunc s = (None, s1)"
  by (simp add: updateLoop.simps[of e i original toUpdate updateFunc s])

lemma updateLoop_written:
  "i < maximumUpdateRetries \<Longrightarrow>
   updateFunc toUpdate (s\<lparr>calls := calls s @ [UpdateFuncCall]\<rparr>) = (toUpdate', s1) \<Longrightarrow>
   Status original \<noteq> Status toUpdate' \<Longrightarrow>
   clientUpdate e (world s1) toUpdate' = (Inr updated, w2) \<Longrightarrow>
   updateLoop e i original toUpdate updateFunc s =
     (Some updated, s1\<lparr>world := w2, calls := calls s1 @ [ClientUpdate toUpdate']\<rparr>)"
  by (simp add: updateLoop.simps[of e i original toUpdate updateFunc s])

lemma updateLoop_refetch_failed:
  "i < maximumUpdateRetries \<Longrightarrow>
   updateFunc toUpdate (s\<lparr>calls := calls s @ [UpdateFuncCall]\<rparr>) = (toUpdate', s1) \<Longrightarrow>
   Status original \<noteq> Status toUpdate' \<Longrightarrow>
   clientUpdate e (world s1) toUpdate' = (Inl err, w2) \<Longrightarrow>
   clientGet e w2 (Namespace toUpdate') (Name toUpdate') = (Inl err', w3) \<Longrightarrow>
   updateLoop e i original toUpdate updateFunc s =
     (None,
      s1\<lparr>world := w3,
         calls := calls s1 @
           [ClientUpdate toUpdate', ClientGet (Namespace toUpdate') (Name toUpdate')],
         glog := glog s1 @ [FailedToGetSparkApplication (Name toUpdate') err']\<rparr>)"
  by (simp add: updateLoop.simps[of e i original toUpdate updateFunc s])

lemma updateLoop_refetched:
  "i < maximumUpdateRetries \<Longrightarrow>
   updateFunc toUpdate (s\<lparr>calls := calls s @ [UpdateFuncCall]\<rparr>) = (toUpdate', s1) \<Longrightarrow>
   Status original \<noteq> Status toUpdate' \<Longrightarrow>
   clientUpdate e (world s1) toUpdate' = (Inl err, w2) \<Longrightarrow>
   clientGet e w2 (Namespace toUpdate') (Name toUpdate') = (Inr fetched, w3) \<Longrightarrow>
   updateLoop e i original toUpdate updateFunc s =
     updateLoop e (i + 1) original fetched updateFunc
       (s1\<lparr>world := w3,
          calls := calls s1 @
            [ClientUpdate toUpdate', ClientGet (Namespace toUpdate') (Name toUpdate')]\<rparr>)"
  by (simp add: updateLoop.simps[of e i original toUpdate updateFunc s])

text \<open>Every run of the loop from iteration \<open>i\<close> takes exactly one of the five steps.\<close>

lemma updateLoop_cases [case_names exhausted unchanged written refetch_failed refetched]:
  obtains
    (exhausted) "\<not> i < maximumUpdateRetries"
      "updateLoop e i original toUpdate updateFunc s = (None, s)"
  | (unchanged) toUpdate' s1 where "i < maximumUpdateRetries"
      "updateFunc toUpdate (s\<lparr>calls := calls s @ [UpdateFuncCall]\<rparr>) = (toUpdate', s1)"
      "Status original = Status toUpdate'"
      "updateLoop e i original toUpdate updateFunc s = (None, s1)"
  | (written) toUpdate' s1 updated w2 where "i < maximumUpdateRetries"
      "updateFunc toUpdate (s\<lparr>calls := calls s @ [UpdateFuncCall]\<rparr>) = (toUpdate', s1)"
      "Status original \<noteq> Status toUpdate'"
      "clientUpdate e (world s1) toUpdate' = (Inr updated, w2)"
      "updateLoop e i original toUpdate updateFunc s =
         (Some updated, s1\<lparr>world := w2, calls := calls s1 @ [ClientUpdate toUpdate']\<rparr>)"
  | (refetch_failed) toUpdate' s1 err w2 err' w3 where "i < maximumUpdateRetries"
      "updateFunc toUpdate (s\<lparr>calls := calls s @ [UpdateFuncCall]\<rparr>) = (toUpdate', s1)"
      "Status original \<noteq> Status toUpdate'"
      "clientUpdate e (world s1) toUpdate' = (Inl err, w2)"
      "clientGet e w2 (Namespace toUpdate') (Name toUpdate') = (Inl err', w3)"
      "updateLoop e i original toUpdate updateFunc s =
         (None,
          s1\<lparr>world := w3,
             calls := calls s1 @
               [ClientUpdate toUpdate', ClientGet (Namespace toUpdate') (Name toUpdate')],
             glog := glog s1 @ [FailedToGetSparkApplication (Name toUpdate') err']\<rparr>)"
  | (refetched) toUpdate' s1 err w2 fetched w3 where "i < maximumUpdateRetries"
      "updateFunc toUpdate (s\<lparr>calls := calls s @ [UpdateFuncCall]\<rparr>) = (toUpdate', s1)"
      "Status original \<noteq> Status toUpdate'"
      "clientUpdate e (world s1) toUpdate' = (Inl err, w2)"
      "clientGet e w2 (Namespace toUpdate') (Name toUpdate') = (Inr fetched, w3)"
      "updateLoop e i original toUpdate updateFunc s =
         updateLoop e (i + 1) original fetched updateFunc
           (s1\<lparr>world := w3,
              calls := calls s1 @
                [ClientUpdate toUpdate', ClientGet (Namespace toUpdate') (Name toUpdate')]\<rparr>)"
proof (cases "i < maximumUpdateRetries")
  case False
  then show ?thesis using exhausted updateLoop_done by blast
next
  case True
  obtain toUpdate' s1 where
    m: "updateFunc toUpdate (s\<lparr>calls := calls s @ [UpdateFuncCall]\<rparr>) = (toUpdate', s1)"
    by (cases "updateFunc toUpdate (s\<lparr>calls := calls s @ [UpdateFuncCall]\<rparr>)")
  obtain r w2 where u: "clientUpdate e (world s1) toUpdate' = (r, w2)"
    by (cases "clientUpdate e (world s1) toUpdate'")
  obtain r' w3 where g: "clientGet e w2 (Namespace toUpdate') (Name toUpdate') = (r', w3)"
    by (cases "clientGet e w2 (Namespace toUpdate') (Name toUpdate')")
  show ?thesis
  proof (cases "Status original = Status toUpdate'")
    case same: True
    show ?thesis
      by (rule unchanged[OF True m same]) (use True m same in \<open>simp add: updateLoop.simps[of e i original toUpdate updateFunc s]\<close>)
  next
    case ne: False
    show ?thesis
    proof (cases r)
      case (Inr updated)
      with u have u': "clientUpdate e (world s1) toUpdate' = (Inr updated, w2)" by simp
      show ?thesis
        by (rule written[OF True m ne u']) (use True m ne u' in \<open>simp add: updateLoop.simps[of e i original toUpdate updateFunc s]\<close>)
    next
      case (Inl err)
      with u have u': "clientUpdate e (world s1) toUpdate' = (Inl err, w2)" by simp
      show ?thesis
      proof (cases r')
        case (Inl err')
        with g have g': "clientGet e w2 (Namespace toUpdate') (Name toUpdate') = (Inl err', w3)"
          by simp
        show ?thesis
          by (rule refetch_failed[OF True m ne u' g'])
             (use True m ne u' g' in \<open>simp add: updateLoop.simps[of e i original toUpdate updateFunc s]\<close>)
      next
        case (Inr fetched)
        with g have g': "clientGet e w2 (Namespace toUpdate') (Name toUpdate') = (Inr fetched, w3)"
          by simp
        show ?thesis
          by (rule refetched[OF True m ne u' g'])
             (use True m ne u' g' in \<open>simp add: updateLoop.simps[of e i original toUpdate updateFunc s]\<close>)
      qed
    qed
  qed
qed

text \<open>The loop touches the registry, the recorder and the runner only through the
  mutation function.\<close>

lemma updateLoop_frame:
  assumes f: "\<And>a s. runningApps (snd (updateFunc a s)) = runningApps s
                  \<and> recorder (snd (updateFunc a s)) = recorder s
                  \<and> runner (snd (updateFunc a s)) = runner s"
  shows "runningApps (snd (updateLoop e i original toUpdate updateFunc s)) = runningApps s
         \<and> recorder (snd (updateLoop e i original toUpdate updateFunc s)) = recorder s
         \<and> runner (snd (updateLoop e i original toUpdate updateFunc s)) = runner s"
proof (induction "maximumUpdateRetries - i" arbitrary: i toUpdate s)
  case 0
  then have "\<not> i < maximumUpdateRetries" by simp
  then show ?case by (simp add: updateLoop_done)
next
  case (Suc n)
  show ?case
  proof (cases e i original toUpdate updateFunc s rule: updateLoop_cases)
    case exhausted
    then show ?thesis by simp
  next
    case (unchanged toUpdate' s1)
    with f[of toUpdate "s\<lparr>calls := calls s @ [UpdateFuncCall]\<rparr>"] show ?thesis by simp
  next
    case (written toUpdate' s1 updated w2)
    with f[of toUpdate "s\<lparr>calls := calls s @ [UpdateFuncCall]\<rparr>"] show ?thesis by simp
  next
    case (refetch_failed toUpdate' s1 err w2 err' w3)
    with f[of toUpdate "s\<lparr>calls := calls s @ [UpdateFuncCall]\<rparr>"] show ?thesis by simp
  next
    case (refetched toUpdate' s1 err w2 fetched w3)
    from Suc.hyps(2) have n: "n = maximumUpdateRetries - (i + 1)" by simp
    from Suc.hyps(1)[OF n] refetched f[of toUpdate "s\<lparr>calls := calls s @ [UpdateFuncCall]\<rparr>"]
    show ?thesis by simp
  qed
qed

subsection \<open>The mutation functions and the rest of the state\<close>

lemma appUpdateFunc_state: "snd (appUpdateFunc update toUpdate s) = s"
  by (simp add: appUpdateFunc_def Let_def)

lemma executorUpdateFunc_state: "snd (executorUpdateFunc update toUpdate s) = s"
  by (simp add: executorUpdateFunc_def Let_def)

lemma getNodeExternalIP_frame:
  "\<exists>w. snd (getNodeExternalIP e n s) = s\<lparr>world := w\<rparr> \<or>
       snd (getNodeExternalIP e n s) = s\<lparr>world := w, glog := glog s @ [FailedToGetNode n]\<rparr>"
  by (auto simp add: getNodeExternalIP_def split: prod.splits sum.splits)

lemma driverUpdateFunc_state:
  "\<exists>w. snd (driverUpdateFunc e update toUpdate s) = s\<lparr>world := w\<rparr> \<or>
       snd (driverUpdateFunc e update toUpdate s) =
         s\<lparr>world := w, glog := glog s @ [FailedToGetNode (nodeName update)]\<rparr>"
proof (cases "nodeName update = []")
  case True
  then have "snd (driverUpdateFunc e update toUpdate s) = s\<lparr>world := world s\<rparr>"
    by (simp add: driverUpdateFunc_def Let_def)
  then show ?thesis by blast
next
  case False
  then have "snd (driverUpdateFunc e update toUpdate s) =
             snd (getNodeExternalIP e (nodeName update) s)"
    by (simp add: driverUpdateFunc_def Let_def split: prod.splits)
  with getNodeExternalIP_frame[of e "nodeName update" s] show ?thesis by simp
qed

lemma submitAppUpdateFunc_state:
  "\<exists>w. snd (submitAppUpdateFunc e resubmission toUpdate s) = s\<lparr>world := w\<rparr>"
  by (auto simp add: submitAppUpdateFunc_def buildAppID_def Let_def split: prod.splits)

subsection \<open>The no-op short circuit\<close>

text \<open>
  Claim C6. If the mutation function, applied to the working copy, yields a status equal to
  the status of the original record, the status updater returns nil, and the state it
  returns is the state the mutation function left: no \<open>client.Update\<close> and no
  \<open>client.Get\<close> has been issued, whatever the store would have answered.
\<close>

theorem no_op_short_circuit:
  assumes "updateFunc toUpdate (s\<lparr>calls := calls s @ [UpdateFuncCall]\<rparr>) = (toUpdate', s1)"
    and "Status toUpdate' = Status original"
  shows "updateSparkApplicationWithRetries e original toUpdate updateFunc s = (None, s1)"
  using assms
  by (simp add: updateSparkApplicationWithRetries_def maximumUpdateRetries_def
        updateLoop.simps[of e 0 original toUpdate updateFunc s])

theorem no_op_short_circuit_witness:
  "executorUpdateFunc pendingExecutor allocatedApp
     (allocatedController\<lparr>calls := calls allocatedController @ [UpdateFuncCall]\<rparr>) =
     (allocatedApp, allocatedController\<lparr>calls := [UpdateFuncCall]\<rparr>)
   \<and> updateSparkApplicationWithRetries conflictEnv allocatedApp allocatedApp
       (executorUpdateFunc pendingExecutor) allocatedController =
     (None, allocatedController\<lparr>calls := [UpdateFuncCall]\<rparr>)"
proof -
  have m: "executorUpdateFunc pendingExecutor allocatedApp
             (allocatedController\<lparr>calls := calls allocatedController @ [UpdateFuncCall]\<rparr>) =
           (allocatedApp, allocatedController\<lparr>calls := [UpdateFuncCall]\<rparr>)"
    by (simp add: executorUpdateFunc_def pendingExecutor_def allocatedApp_def
          allocatedController_def trackingController_def Let_def)
  from no_op_short_circuit[where updateFunc = "executorUpdateFunc pendingExecutor"
         and toUpdate = allocatedApp and s = allocatedController and original = allocatedApp
         and e = conflictEnv, OF m refl] m
  show ?thesis by simp
qed


subsection \<open>The retry bound\<close>

lemma mutations_append: "mutations (xs @ ys) = mutations xs + mutations ys"
  by (simp add: mutations_def)

lemma writes_append: "writes (xs @ ys) = writes xs + writes ys"
  by (simp add: writes_def)

lemma fetches_append: "fetches (xs @ ys) = fetches xs + fetches ys"
  by (simp add: fetches_def)

lemma count_Nil: "mutations [] = 0" "writes [] = 0" "fetches [] = 0"
  by (simp_all add: mutations_def writes_def fetches_def)

lemma count_Cons:
  "mutations (UpdateFuncCall # cs) = Suc (mutations cs)"
  "mutations (ClientUpdate a # cs) = mutations cs"
  "mutations (ClientGet ns n # cs) = mutations cs"
  "writes (UpdateFuncCall # cs) = writes cs"
  "writes (ClientUpdate a # cs) = Suc (writes cs)"
  "writes (ClientGet ns n # cs) = writes cs"
  "fetches (UpdateFuncCall # cs) = fetches cs"
  "fetches (ClientUpdate a # cs) = fetches cs"
  "fetches (ClientGet ns n # cs) = Suc (fetches cs)"
  by (simp_all add: mutations_def writes_def fetches_def)

text \<open>
  When every write fails, every re-fetch succeeds and every mutation changes the status,
  each of the remaining iterations mutates once, writes once and fetches once.
\<close>

lemma updateLoop_all_writes_fail:
  assumes upd: "\<And>w a. isl (fst (clientUpdate e w a))"
    and get: "\<And>w ns n. \<not> isl (fst (clientGet e w ns n))"
    and changed: "\<And>a s. Status (fst (updateFunc a s)) \<noteq> Status original"
    and quiet: "\<And>a s. calls (snd (updateFunc a s)) = calls s"
  shows "fst (updateLoop e i original toUpdate updateFunc s) = None
    \<and> mutations (calls (snd (updateLoop e i original toUpdate updateFunc s))) =
        mutations (calls s) + (maximumUpdateRetries - i)
    \<and> writes (calls (snd (updateLoop e i original toUpdate updateFunc s))) =
        writes (calls s) + (maximumUpdateRetries - i)
    \<and> fetches (calls (snd (updateLoop e i original toUpdate updateFunc s))) =
        fetches (calls s) + (maximumUpdateRetries - i)"
proof (induction "maximumUpdateRetries - i" arbitrary: i toUpdate s)
  case 0
  then have "\<not> i < maximumUpdateRetries" by simp
  with 0 show ?case by (simp add: updateLoop_done)
next
  case (Suc n)
  let ?s0 = "s\<lparr>calls := calls s @ [UpdateFuncCall]\<rparr>"
  show ?case
  proof (cases e i original toUpdate updateFunc s rule: updateLoop_cases)
    case exhausted
    with Suc.hyps(2) show ?thesis by simp
  next
    case (unchanged toUpdate' s1)
    with changed[of toUpdate ?s0] show ?thesis by simp
  next
    case (written toUpdate' s1 updated w2)
    with upd[of "world s1" toUpdate'] show ?thesis by simp
  next
    case (refetch_failed toUpdate' s1 err w2 err' w3)
    with get[of w2 "Namespace toUpdate'" "Name toUpdate'"] show ?thesis by simp
  next
    case (refetched toUpdate' s1 err w2 fetched w3)
    from Suc.hyps(2) have n: "n = maximumUpdateRetries - (i + 1)" by simp
    from quiet[of toUpdate ?s0] refetched(2) have c: "calls s1 = calls s @ [UpdateFuncCall]"
      by simp
    from Suc.hyps(2) n have k: "maximumUpdateRetries - i = Suc (maximumUpdateRetries - (i + 1))"
      by simp
    let ?s2 = "s1\<lparr>world := w3, calls := calls s1 @
           [ClientUpdate toUpdate', ClientGet (Namespace toUpdate') (Name toUpdate')]\<rparr>"
    have c2: "mutations (calls ?s2) = Suc (mutations (calls s))"
      "writes (calls ?s2) = Suc (writes (calls s))"
      "fetches (calls ?s2) = Suc (fetches (calls s))"
      using c
      by (simp_all add: mutations_append writes_append fetches_append count_Nil count_Cons)
    note ih = Suc.hyps(1)[OF n, of fetched ?s2]
    show ?thesis
      unfolding refetched(6) using ih c2 k by presburger

  qed
qed

text \<open>
  Claim C1, as amended. If every \<open>client.Update\<close> returns an error, every
  \<open>client.Get\<close> succeeds, and every mutation yields a status different from the
  original's, then \<open>updateSparkApplicationWithRetries\<close> returns nil after exactly 3
  calls of the mutation function, exactly 3 writes and exactly 3 re-fetches: the re-fetch
  follows every failed write, the last one included, whose result is never used. The
  counts are those of the call log, to which the mutation function adds nothing of its
  own (the last hypothesis).
\<close>

theorem retry_bound:
  assumes "\<forall>w a. isl (fst (clientUpdate e w a))"
    and "\<forall>w ns n. \<not> isl (fst (clientGet e w ns n))"
    and "\<forall>a s. Status (fst (updateFunc a s)) \<noteq> Status original"
    and "\<forall>a s. calls (snd (updateFunc a s)) = calls s"
  shows "fst (updateSparkApplicationWithRetries e original toUpdate updateFunc s) = None
    \<and> mutations (calls (snd (updateSparkApplicationWithRetries e original toUpdate updateFunc s))) =
        mutations (calls s) + 3
    \<and> writes (calls (snd (updateSparkApplicationWithRetries e original toUpdate updateFunc s))) =
        writes (calls s) + 3
    \<and> fetches (calls (snd (updateSparkApplicationWithRetries e original toUpdate updateFunc s))) =
        fetches (calls s) + 3"
  using updateLoop_all_writes_fail[where e = e and updateFunc = updateFunc and original = original
      and i = 0 and toUpdate = toUpdate and s = s] assms
  by (simp add: updateSparkApplicationWithRetries_def maximumUpdateRetries_def)

lemma runningExecutor_changes_completedApp:
  "Status (fst (executorUpdateFunc runningExecutor a s)) \<noteq> Status completedApp"
proof
  assume "Status (fst (executorUpdateFunc runningExecutor a s)) = Status completedApp"
  then have "ExecutorState (Status (fst (executorUpdateFunc runningExecutor a s))) =
             ExecutorState (Status completedApp)" by simp
  then show False
    by (cases "ExecutorState (Status a)")
       (simp_all add: executorUpdateFunc_def runningExecutor_def pendingExecutor_def
          completedApp_def emptyStatus_def Let_def)
qed

theorem retry_bound_witness:
  "(\<forall>w a. isl (fst (clientUpdate conflictEnv w a)))
   \<and> (\<forall>w ns n. \<not> isl (fst (clientGet conflictEnv w ns n)))
   \<and> (\<forall>a s. Status (fst (executorUpdateFunc runningExecutor a (s :: cluster controller)))
          \<noteq> Status completedApp)
   \<and> (\<forall>a s. calls (snd (executorUpdateFunc runningExecutor a (s :: cluster controller))) = calls s)
   \<and> fst (updateSparkApplicationWithRetries conflictEnv completedApp completedApp
          (executorUpdateFunc runningExecutor) trackingController) = None
   \<and> mutations (calls (snd (updateSparkApplicationWithRetries conflictEnv completedApp completedApp
          (executorUpdateFunc runningExecutor) trackingController))) = 3
   \<and> writes (calls (snd (updateSparkApplicationWithRetries conflictEnv completedApp completedApp
          (executorUpdateFunc runningExecutor) trackingController))) = 3
   \<and> fetches (calls (snd (updateSparkApplicationWithRetries conflictEnv completedApp completedApp
          (executorUpdateFunc runningExecutor) trackingController))) = 3"
proof -
  have h1: "\<forall>w a. isl (fst (clientUpdate conflictEnv w a))"
    by (simp add: conflictEnv_def)
  have h2: "\<forall>w ns n. \<not> isl (fst (clientGet conflictEnv w ns n))"
    by (simp add: conflictEnv_def acceptingEnv_def)
  have h3: "\<forall>a s. Status (fst (executorUpdateFunc runningExecutor a (s :: cluster controller)))
              \<noteq> Status completedApp"
    by (simp add: runningExecutor_changes_completedApp)
  have h4: "\<forall>a s. calls (snd (executorUpdateFunc runningExecutor a (s :: cluster controller))) = calls s"
    by (simp add: executorUpdateFunc_state)
  have c: "calls trackingController = []" by (simp add: trackingController_def)
  from retry_bound[OF h1 h2 h3 h4, of completedApp trackingController] h1 h2 h3 h4 c
  show ?thesis by (simp add: mutations_def writes_def fetches_def)
qed

text \<open>
  Claim C1 as the spec states it, at a store that answers every write with a version
  conflict and every re-fetch with the record: the status updater returns nil after 3
  writes, and it has re-fetched 3 times, not 2.
\<close>

theorem retry_bound_counterexample:
  "fst (updateSparkApplicationWithRetries conflictEnv completedApp completedApp
          (executorUpdateFunc runningExecutor) trackingController) = None
   \<and> writes (calls (snd (updateSparkApplicationWithRetries conflictEnv completedApp completedApp
          (executorUpdateFunc runningExecutor) trackingController))) = 3
   \<and> fetches (calls (snd (updateSparkApplicationWithRetries conflictEnv completedApp completedApp
          (executorUpdateFunc runningExecutor) trackingController))) = 3
   \<and> fetches (calls (snd (updateSparkApplicationWithRetries conflictEnv completedApp completedApp
          (executorUpdateFunc runningExecutor) trackingController))) \<noteq> 2"
  by (simp add: updateSparkApplicationWithRetries_def updateLoop.simps maximumUpdateRetries_def
        conflictEnv_def acceptingEnv_def completedApp_def piApp_def executorUpdateFunc_def
        runningExecutor_def pendingExecutor_def trackingController_def emptyStatus_def
        fetches_def writes_def)


subsection \<open>Recovery from a failed write\<close>

text \<open>
  Claim C9. In the loop of \<open>updateSparkApplicationWithRetries\<close>, after a write that
  failed with any error \<open>err\<close>: if the re-fetch fails with any error, the loop returns nil
  at once, having issued that one \<open>client.Get\<close> and logged it; if the re-fetch succeeds,
  the loop goes on with the next iteration on the fetched record, the old working copy being
  kept nowhere but in the log of the write. Neither outcome depends on \<open>err\<close>. The next
  iteration is a new mutate-compare-write cycle while the bound allows one, and the nil
  return otherwise.
\<close>

theorem update_error_recovery:
  assumes "i < maximumUpdateRetries"
    and "updateFunc toUpdate (s\<lparr>calls := calls s @ [UpdateFuncCall]\<rparr>) = (toUpdate', s1)"
    and "Status original \<noteq> Status toUpdate'"
    and "clientUpdate e (world s1) toUpdate' = (Inl err, w2)"
  shows "(\<forall>err' w3. clientGet e w2 (Namespace toUpdate') (Name toUpdate') = (Inl err', w3) \<longrightarrow>
            updateLoop e i original toUpdate updateFunc s =
              (None,
               s1\<lparr>world := w3,
                  calls := calls s1 @
                    [ClientUpdate toUpdate', ClientGet (Namespace toUpdate') (Name toUpdate')],
                  glog := glog s1 @ [FailedToGetSparkApplication (Name toUpdate') err']\<rparr>))
       \<and> (\<forall>fetched w3. clientGet e w2 (Namespace toUpdate') (Name toUpdate') = (Inr fetched, w3) \<longrightarrow>
            updateLoop e i original toUpdate updateFunc s =
              updateLoop e (i + 1) original fetched updateFunc
                (s1\<lparr>world := w3,
                   calls := calls s1 @
                     [ClientUpdate toUpdate', ClientGet (Namespace toUpdate') (Name toUpdate')]\<rparr>)
            \<and> (i + 1 = maximumUpdateRetries \<longrightarrow>
                 updateLoop e i original toUpdate updateFunc s =
                   (None,
                    s1\<lparr>world := w3,
                       calls := calls s1 @
                         [ClientUpdate toUpdate',
                          ClientGet (Namespace toUpdate') (Name toUpdate')]\<rparr>)))"
  using assms
  by (simp add: updateLoop.simps[of e i original toUpdate updateFunc s] updateLoop_done)

lemma runningExecutor_on_completedApp:
  "executorUpdateFunc runningExecutor completedApp s =
     (completedApp\<lparr>Status := (Status completedApp)
        \<lparr>ExecutorState := Some (fmupd ''pi-exec-1'' ExecutorRunningState fmempty)\<rparr>\<rparr>, s)"
  by (simp add: executorUpdateFunc_def runningExecutor_def pendingExecutor_def completedApp_def
        emptyStatus_def Let_def)

theorem update_error_recovery_witness:
  "updateLoop goneEnv 0 completedApp completedApp (executorUpdateFunc runningExecutor)
     trackingController =
     (None,
      trackingController
        \<lparr>calls :=
           [UpdateFuncCall,
            ClientUpdate (completedApp\<lparr>Status := (Status completedApp)
              \<lparr>ExecutorState := Some (fmupd ''pi-exec-1'' ExecutorRunningState fmempty)\<rparr>\<rparr>),
            ClientGet ''default'' ''pi''],
         glog := [FailedToGetSparkApplication ''pi'' NotFound]\<rparr>)
   \<and> updateLoop conflictEnv 0 completedApp completedApp (executorUpdateFunc runningExecutor)
       trackingController =
     updateLoop conflictEnv 1 completedApp completedApp (executorUpdateFunc runningExecutor)
       (trackingController
          \<lparr>calls :=
             [UpdateFuncCall,
              ClientUpdate (completedApp\<lparr>Status := (Status completedApp)
                \<lparr>ExecutorState := Some (fmupd ''pi-exec-1'' ExecutorRunningState fmempty)\<rparr>\<rparr>),
              ClientGet ''default'' ''pi'']\<rparr>)
   \<and> updateLoop conflictEnv 2 completedApp completedApp (executorUpdateFunc runningExecutor)
       trackingController =
     (None,
      trackingController
        \<lparr>calls :=
           [UpdateFuncCall,
            ClientUpdate (completedApp\<lparr>Status := (Status completedApp)
              \<lparr>ExecutorState := Some (fmupd ''pi-exec-1'' ExecutorRunningState fmempty)\<rparr>\<rparr>),
            ClientGet ''default'' ''pi'']\<rparr>)"
proof -
  let ?t = "completedApp\<lparr>Status := (Status completedApp)
        \<lparr>ExecutorState := Some (fmupd ''pi-exec-1'' ExecutorRunningState fmempty)\<rparr>\<rparr>"
  let ?s1 = "trackingController\<lparr>calls := calls trackingController @ [UpdateFuncCall]\<rparr>"
  let ?f = "executorUpdateFunc runningExecutor"
  have h0: "0 < maximumUpdateRetries" and h2': "2 < maximumUpdateRetries"
    and last: "2 + 1 = maximumUpdateRetries"
    by (simp_all add: maximumUpdateRetries_def)
  have h2: "?f completedApp ?s1 = (?t, ?s1)"
    by (rule runningExecutor_on_completedApp)
  have h3: "Status completedApp \<noteq> Status ?t"
    by (simp add: completedApp_def emptyStatus_def)
  have gone: "clientUpdate goneEnv (world ?s1) ?t = (Inl (Error ''timeout''), world ?s1)"
    "clientGet goneEnv (world ?s1) (Namespace ?t) (Name ?t) = (Inl NotFound, world ?s1)"
    by (simp_all add: goneEnv_def)
  have conflict:
    "clientUpdate conflictEnv (world ?s1) ?t = (Inl VersionConflict, world ?s1)"
    "clientGet conflictEnv (world ?s1) (Namespace ?t) (Name ?t) = (Inr completedApp, world ?s1)"
    by (simp_all add: conflictEnv_def acceptingEnv_def trackingController_def)
  have shape: "?s1\<lparr>world := world ?s1,
            calls := calls ?s1 @ [ClientUpdate ?t, ClientGet (Namespace ?t) (Name ?t)]\<rparr> =
        trackingController\<lparr>calls := [UpdateFuncCall, ClientUpdate ?t, ClientGet ''default'' ''pi'']\<rparr>"
    by (simp add: trackingController_def completedApp_def piApp_def)
  from update_error_recovery[where updateFunc = ?f and toUpdate = completedApp
      and s = trackingController and e = goneEnv and original = completedApp,
      OF h0 h2 h3 gone(1)] gone(2)
  have a: "updateLoop goneEnv 0 completedApp completedApp ?f trackingController =
        (None,
         ?s1\<lparr>world := world ?s1,
            calls := calls ?s1 @ [ClientUpdate ?t, ClientGet (Namespace ?t) (Name ?t)],
            glog := glog ?s1 @ [FailedToGetSparkApplication (Name ?t) NotFound]\<rparr>)"
    by blast
  from update_error_recovery[where updateFunc = ?f and toUpdate = completedApp
      and s = trackingController and e = conflictEnv and original = completedApp,
      OF h0 h2 h3 conflict(1)] conflict(2)
  have b: "updateLoop conflictEnv 0 completedApp completedApp ?f trackingController =
        updateLoop conflictEnv (0 + 1) completedApp completedApp ?f
          (?s1\<lparr>world := world ?s1,
            calls := calls ?s1 @ [ClientUpdate ?t, ClientGet (Namespace ?t) (Name ?t)]\<rparr>)"
    by blast
  from update_error_recovery[where updateFunc = ?f and toUpdate = completedApp
      and s = trackingController and e = conflictEnv and original = completedApp,
      OF h2' h2 h3 conflict(1)] conflict(2) last
  have c: "updateLoop conflictEnv 2 completedApp completedApp ?f trackingController =
        (None,
         ?s1\<lparr>world := world ?s1,
            calls := calls ?s1 @ [ClientUpdate ?t, ClientGet (Namespace ?t) (Name ?t)]\<rparr>)"
    by blast
  have a': "?s1\<lparr>world := world ?s1,
            calls := calls ?s1 @ [ClientUpdate ?t, ClientGet (Namespace ?t) (Name ?t)],
            glog := glog ?s1 @ [FailedToGetSparkApplication (Name ?t) NotFound]\<rparr> =
        trackingController\<lparr>calls := [UpdateFuncCall, ClientUpdate ?t, ClientGet ''default'' ''pi''],
           glog := [FailedToGetSparkApplication ''pi'' NotFound]\<rparr>"
    by (simp add: trackingController_def completedApp_def piApp_def)
  from a have A: "updateLoop goneEnv 0 completedApp completedApp ?f trackingController =
        (None,
         trackingController\<lparr>calls := [UpdateFuncCall, ClientUpdate ?t, ClientGet ''default'' ''pi''],
           glog := [FailedToGetSparkApplication ''pi'' NotFound]\<rparr>)"
    by (simp only: a')
  from b have B: "updateLoop conflictEnv 0 completedApp completedApp ?f trackingController =
        updateLoop conflictEnv 1 completedApp completedApp ?f
          (trackingController\<lparr>calls :=
             [UpdateFuncCall, ClientUpdate ?t, ClientGet ''default'' ''pi'']\<rparr>)"
    by (simp only: shape add_0)
  from c have C: "updateLoop conflictEnv 2 completedApp completedApp ?f trackingController =
        (None,
         trackingController\<lparr>calls :=
           [UpdateFuncCall, ClientUpdate ?t, ClientGet ''default'' ''pi'']\<rparr>)"
    by (simp only: shape)
  from A B C show ?thesis by (intro conjI)
qed


subsection \<open>The reducers' mutation functions\<close>

lemma isAppTerminated_phase:
  "isAppTerminated (driverPodPhaseToApplicationState p) \<longleftrightarrow> p = PodSucceeded \<or> p = PodFailed"
  by (simp add: isAppTerminated_def driverPodPhaseToApplicationState_def PodPending_def
        PodRunning_def PodSucceeded_def PodFailed_def)

text \<open>
  Claim C7. The phase table of \<open>driverPodPhaseToApplicationState\<close>, and the rule of the
  driver-lifecycle reducer: the mapped state is assigned to \<open>appState.state\<close> when it is
  terminal, and \<open>appState.state\<close> is left as it was otherwise.
\<close>

theorem driver_phase_mapping:
  "driverPodPhaseToApplicationState PodPending = SubmittedState
   \<and> driverPodPhaseToApplicationState PodRunning = RunningState
   \<and> driverPodPhaseToApplicationState PodSucceeded = CompletedState
   \<and> driverPodPhaseToApplicationState PodFailed = FailedState
   \<and> (p \<notin> {PodPending, PodRunning, PodSucceeded, PodFailed} \<longrightarrow>
        driverPodPhaseToApplicationState p = EmptyState)
   \<and> State (AppState (Status (fst (driverUpdateFunc e update toUpdate s)))) =
       (if isAppTerminated (driverPodPhaseToApplicationState (podPhase update))
        then driverPodPhaseToApplicationState (podPhase update)
        else State (AppState (Status toUpdate)))
   \<and> (isAppTerminated (driverPodPhaseToApplicationState (podPhase update)) \<longleftrightarrow>
        driverPodPhaseToApplicationState (podPhase update) = CompletedState
        \<or> driverPodPhaseToApplicationState (podPhase update) = FailedState)"
proof -
  have table: "driverPodPhaseToApplicationState PodPending = SubmittedState"
    "driverPodPhaseToApplicationState PodRunning = RunningState"
    "driverPodPhaseToApplicationState PodSucceeded = CompletedState"
    "driverPodPhaseToApplicationState PodFailed = FailedState"
    by (simp_all add: driverPodPhaseToApplicationState_def PodPending_def PodRunning_def
          PodSucceeded_def PodFailed_def)
  have other: "p \<notin> {PodPending, PodRunning, PodSucceeded, PodFailed} \<longrightarrow>
        driverPodPhaseToApplicationState p = EmptyState"
    by (simp add: driverPodPhaseToApplicationState_def)
  have rule: "State (AppState (Status (fst (driverUpdateFunc e update toUpdate s)))) =
       (if isAppTerminated (driverPodPhaseToApplicationState (podPhase update))
        then driverPodPhaseToApplicationState (podPhase update)
        else State (AppState (Status toUpdate)))"
    by (simp add: driverUpdateFunc_def Let_def split: prod.splits)
  show ?thesis using table other rule by (simp add: isAppTerminated_def)
qed

theorem driver_phase_mapping_witness:
  "driverPodPhaseToApplicationState PodUnknown = EmptyState
   \<and> State (AppState (Status (fst (driverUpdateFunc acceptingEnv succeededDriver runningApp
         emptyController)))) = CompletedState
   \<and> State (AppState (Status (fst (driverUpdateFunc acceptingEnv runningDriver
         (runningApp\<lparr>Status := (Status runningApp)
            \<lparr>AppState := \<lparr>State = SubmittedState, ErrorMessage = []\<rparr>\<rparr>\<rparr>)
         emptyController)))) = SubmittedState"
proof -
  have u: "PodUnknown \<notin> {PodPending, PodRunning, PodSucceeded, PodFailed}"
    by (simp add: PodUnknown_def PodPending_def PodRunning_def PodSucceeded_def PodFailed_def)
  have p: "podPhase succeededDriver = PodSucceeded" "podPhase runningDriver = PodRunning"
    by (simp_all add: succeededDriver_def runningDriver_def)
  from driver_phase_mapping[of PodUnknown acceptingEnv succeededDriver runningApp emptyController]
       driver_phase_mapping[of PodUnknown acceptingEnv runningDriver
         "runningApp\<lparr>Status := (Status runningApp)
            \<lparr>AppState := \<lparr>State = SubmittedState, ErrorMessage = []\<rparr>\<rparr>\<rparr>" emptyController]
       u p
  show ?thesis by (simp add: isAppTerminated_def)
qed

text \<open>
  Claim C8 as the spec states it fails for the driver-lifecycle reducer: its mutation
  function looks the node up at every application, and the cluster may answer the second
  lookup differently. Here the first lookup fails and the second one finds the external
  address of the node, so the second application sets \<open>webUIAddress\<close>, which the first
  one left empty.
\<close>

theorem mutation_idempotent_counterexample:
  "WebUIAddress (DriverInfo (Status (fst (driverUpdateFunc lateNodeEnv succeededDriver
       runningApp trackingController)))) = []
   \<and> WebUIAddress (DriverInfo (Status (fst (driverUpdateFunc lateNodeEnv succeededDriver
       (fst (driverUpdateFunc lateNodeEnv succeededDriver runningApp trackingController))
       (snd (driverUpdateFunc lateNodeEnv succeededDriver runningApp trackingController)))))) =
     ''35.0.0.7:4040''
   \<and> Status (fst (driverUpdateFunc lateNodeEnv succeededDriver
       (fst (driverUpdateFunc lateNodeEnv succeededDriver runningApp trackingController))
       (snd (driverUpdateFunc lateNodeEnv succeededDriver runningApp trackingController)))) \<noteq>
     Status (fst (driverUpdateFunc lateNodeEnv succeededDriver runningApp trackingController))"
proof -
  have once: "WebUIAddress (DriverInfo (Status (fst (driverUpdateFunc lateNodeEnv succeededDriver
       runningApp trackingController)))) = []"
    by code_simp
  have twice: "WebUIAddress (DriverInfo (Status (fst (driverUpdateFunc lateNodeEnv succeededDriver
       (fst (driverUpdateFunc lateNodeEnv succeededDriver runningApp trackingController))
       (snd (driverUpdateFunc lateNodeEnv succeededDriver runningApp trackingController)))))) =
     ''35.0.0.7:4040''"
    by code_simp
  from once twice show ?thesis by auto
qed

text \<open>
  Claim C8, as amended. For the submission-outcome and the worker-lifecycle reducer, every
  event and every working copy: applying the mutation function a second time, to what the
  first application returned, yields the record the first application yielded (and so the
  same status). For the driver-lifecycle reducer the same holds when the event names no
  node, or when the node lookup of the second application resolves to no address or to
  the address that the lookup of the first application resolved to.
\<close>

theorem mutation_idempotent:
  "fst (appUpdateFunc au (fst (appUpdateFunc au toUpdate s)) (snd (appUpdateFunc au toUpdate s))) =
     fst (appUpdateFunc au toUpdate s)
   \<and> fst (executorUpdateFunc eu (fst (executorUpdateFunc eu toUpdate s))
            (snd (executorUpdateFunc eu toUpdate s))) =
     fst (executorUpdateFunc eu toUpdate s)
   \<and> (nodeName du = []
        \<or> fst (getNodeExternalIP e (nodeName du) (snd (driverUpdateFunc e du toUpdate s))) = []
        \<or> fst (getNodeExternalIP e (nodeName du) (snd (driverUpdateFunc e du toUpdate s))) =
           fst (getNodeExternalIP e (nodeName du) s) \<longrightarrow>
        fst (driverUpdateFunc e du (fst (driverUpdateFunc e du toUpdate s))
               (snd (driverUpdateFunc e du toUpdate s))) =
        fst (driverUpdateFunc e du toUpdate s))"
proof -
  have a: "fst (appUpdateFunc au (fst (appUpdateFunc au toUpdate s)) (snd (appUpdateFunc au toUpdate s))) =
     fst (appUpdateFunc au toUpdate s)"
    by (simp add: appUpdateFunc_def Let_def isAppTerminated_def)
  have x: "fst (executorUpdateFunc eu (fst (executorUpdateFunc eu toUpdate s))
            (snd (executorUpdateFunc eu toUpdate s))) =
     fst (executorUpdateFunc eu toUpdate s)"
    by (cases "ExecutorState (Status toUpdate)") (simp_all add: executorUpdateFunc_def Let_def)
  have d: "fst (driverUpdateFunc e du (fst (driverUpdateFunc e du toUpdate s))
            (snd (driverUpdateFunc e du toUpdate s))) =
     fst (driverUpdateFunc e du toUpdate s)"
    if stable: "nodeName du = []
        \<or> fst (getNodeExternalIP e (nodeName du) (snd (driverUpdateFunc e du toUpdate s))) = []
        \<or> fst (getNodeExternalIP e (nodeName du) (snd (driverUpdateFunc e du toUpdate s))) =
           fst (getNodeExternalIP e (nodeName du) s)"
  proof -
    define t1 where "t1 = fst (driverUpdateFunc e du toUpdate s)"
    define s1 where "s1 = snd (driverUpdateFunc e du toUpdate s)"
    obtain ip s' where g1: "getNodeExternalIP e (nodeName du) s = (ip, s')"
      by (cases "getNodeExternalIP e (nodeName du) s")
    obtain ip2 s'' where g2: "getNodeExternalIP e (nodeName du) s1 = (ip2, s'')"
      by (cases "getNodeExternalIP e (nodeName du) s1")
    from stable g1 g2 have ip2: "nodeName du = [] \<or> ip2 = [] \<or> ip2 = ip"
      by (simp add: s1_def)
    have t1: "t1 =
      (let named = toUpdate\<lparr>Status := (Status toUpdate)
              \<lparr>DriverInfo := (DriverInfo (Status toUpdate))\<lparr>PodName := driverPodName du\<rparr>\<rparr>\<rparr>;
           addressed =
             (if nodeName du \<noteq> [] \<and> ip \<noteq> [] then
                named\<lparr>Status := (Status named)
                  \<lparr>DriverInfo := (DriverInfo (Status named))
                     \<lparr>WebUIAddress :=
                        ip @ '':'' @ formatInt (sint (WebUIPort (DriverInfo (Status named))))\<rparr>\<rparr>\<rparr>
              else named)
       in if isAppTerminated (driverPodPhaseToApplicationState (podPhase du)) then
            addressed\<lparr>Status := (Status addressed)
              \<lparr>AppState := (AppState (Status addressed))
                 \<lparr>State := driverPodPhaseToApplicationState (podPhase du)\<rparr>\<rparr>\<rparr>
          else addressed)"
      unfolding t1_def by (simp add: driverUpdateFunc_def g1 Let_def)
    have "fst (driverUpdateFunc e du t1 s1) = t1"
      unfolding driverUpdateFunc_def[of e du t1 s1] g2
      using ip2 by (auto simp add: t1 Let_def)
    then show ?thesis by (simp add: t1_def s1_def)
  qed
  from a x d show ?thesis by blast
qed

theorem mutation_idempotent_witness:
  "fst (getNodeExternalIP acceptingEnv (nodeName succeededDriver)
          (snd (driverUpdateFunc acceptingEnv succeededDriver runningApp trackingController))) =
     fst (getNodeExternalIP acceptingEnv (nodeName succeededDriver) trackingController)
   \<and> fst (appUpdateFunc failedSubmissionUpdate
          (fst (appUpdateFunc failedSubmissionUpdate runningApp trackingController))
          (snd (appUpdateFunc failedSubmissionUpdate runningApp trackingController))) =
     fst (appUpdateFunc failedSubmissionUpdate runningApp trackingController)
   \<and> fst (executorUpdateFunc runningExecutor
            (fst (executorUpdateFunc runningExecutor runningApp trackingController))
            (snd (executorUpdateFunc runningExecutor runningApp trackingController))) =
     fst (executorUpdateFunc runningExecutor runningApp trackingController)
   \<and> fst (driverUpdateFunc acceptingEnv succeededDriver
            (fst (driverUpdateFunc acceptingEnv succeededDriver runningApp trackingController))
            (snd (driverUpdateFunc acceptingEnv succeededDriver runningApp trackingController))) =
     fst (driverUpdateFunc acceptingEnv succeededDriver runningApp trackingController)
   \<and> WebUIAddress (DriverInfo (Status (fst (driverUpdateFunc acceptingEnv succeededDriver
        runningApp trackingController)))) = ''35.0.0.7:4040''"
proof -
  have ip: "\<And>s :: cluster controller.
      fst (getNodeExternalIP acceptingEnv (nodeName succeededDriver) s) = ''35.0.0.7''"
    by (simp add: getNodeExternalIP_def acceptingEnv_def succeededDriver_def)
  have stable: "fst (getNodeExternalIP acceptingEnv (nodeName succeededDriver)
          (snd (driverUpdateFunc acceptingEnv succeededDriver runningApp trackingController))) =
     fst (getNodeExternalIP acceptingEnv (nodeName succeededDriver) trackingController)"
    by (simp add: ip)
  have addr: "WebUIAddress (DriverInfo (Status (fst (driverUpdateFunc acceptingEnv
        succeededDriver runningApp trackingController)))) = ''35.0.0.7:4040''"
    by code_simp
  from mutation_idempotent[of failedSubmissionUpdate runningApp trackingController
      runningExecutor succeededDriver acceptingEnv] stable addr
  show ?thesis by simp
qed


subsection \<open>Pending workers\<close>

text \<open>
  Claim C5 as the spec states it fails on a record whose worker map is nil: the reducer
  allocates the map before it looks at the state of the worker, so \<open>executorState\<close>
  goes from the nil map to an allocated empty one, the status differs from the original's
  for \<open>reflect.DeepEqual\<close>, and the record is written to the store.
\<close>

theorem pending_executor_counterexample:
  "executorEntry completedApp (executorPodName pendingExecutor) = None
   \<and> ExecutorState (Status completedApp) = None
   \<and> ExecutorState (Status (fst (executorUpdateFunc pendingExecutor completedApp
        trackingController))) = Some fmempty
   \<and> ExecutorState (Status (fst (executorUpdateFunc pendingExecutor completedApp
        trackingController))) \<noteq> ExecutorState (Status completedApp)
   \<and> writes (calls (processSingleExecutorStateUpdate acceptingEnv pendingExecutor
        trackingController)) = 1"
  by (simp add: executorEntry_def executorUpdateFunc_def pendingExecutor_def completedApp_def
        piApp_def emptyStatus_def trackingController_def acceptingEnv_def Let_def
        processSingleExecutorStateUpdate_def updateSparkApplicationWithRetries_def
        updateLoop.simps maximumUpdateRetries_def writes_def)

text \<open>
  Claim C5, as amended. A worker-lifecycle event with state Pending creates no entry: the
  entry of every pod is what it was, so a pod never seen before stays without one. The map
  itself is unchanged when it was allocated, and then the reducer changes nothing at all
  and calls the store not once; a nil map becomes an allocated empty one.
\<close>

theorem pending_executor_no_entry:
  assumes "executorPodState update = ExecutorPendingState"
  shows "(\<forall>pod. executorEntry (fst (executorUpdateFunc update toUpdate s)) pod =
                executorEntry toUpdate pod)
       \<and> fst (executorUpdateFunc update toUpdate s) =
           (if ExecutorState (Status toUpdate) = None
            then toUpdate\<lparr>Status := (Status toUpdate)\<lparr>ExecutorState := Some fmempty\<rparr>\<rparr>
            else toUpdate)
       \<and> (\<forall>app. fmlookup (runningApps s) (executorAppID update) = Some app
                \<and> ExecutorState (Status app) \<noteq> None \<longrightarrow>
              processSingleExecutorStateUpdate e update s =
                s\<lparr>calls := calls s @ [UpdateFuncCall]\<rparr>)"
proof -
  have m: "\<And>t s'. fst (executorUpdateFunc update t s') =
           (if ExecutorState (Status t) = None
            then t\<lparr>Status := (Status t)\<lparr>ExecutorState := Some fmempty\<rparr>\<rparr>
            else t)"
    using assms by (simp add: executorUpdateFunc_def Let_def)
  have entries: "\<forall>pod. executorEntry (fst (executorUpdateFunc update toUpdate s)) pod =
                executorEntry toUpdate pod"
    by (simp add: m executorEntry_def)
  have whole: "\<forall>app. fmlookup (runningApps s) (executorAppID update) = Some app
                \<and> ExecutorState (Status app) \<noteq> None \<longrightarrow>
              processSingleExecutorStateUpdate e update s =
                s\<lparr>calls := calls s @ [UpdateFuncCall]\<rparr>"
  proof (intro allI impI, elim conjE)
    fix app
    assume tracked: "fmlookup (runningApps s) (executorAppID update) = Some app"
      and alloc: "ExecutorState (Status app) \<noteq> None"
    let ?s0 = "s\<lparr>calls := calls s @ [UpdateFuncCall]\<rparr>"
    have "executorUpdateFunc update app ?s0 = (app, ?s0)"
      using m[of app ?s0] alloc executorUpdateFunc_state[of update app ?s0]
      by (simp add: prod_eq_iff)
    then have "updateSparkApplicationWithRetries e app app (executorUpdateFunc update) s =
                 (None, ?s0)"
      by (simp add: updateSparkApplicationWithRetries_def maximumUpdateRetries_def
            updateLoop.simps[of e 0 app app "executorUpdateFunc update" s])
    with tracked show "processSingleExecutorStateUpdate e update s = ?s0"
      by (simp add: processSingleExecutorStateUpdate_def)
  qed
  from entries m[of toUpdate s] whole show ?thesis by blast
qed

theorem pending_executor_no_entry_witness:
  "executorPodState pendingExecutor = ExecutorPendingState
   \<and> executorEntry (fst (executorUpdateFunc pendingExecutor completedApp trackingController))
        ''pi-exec-1'' = None
   \<and> fst (executorUpdateFunc pendingExecutor completedApp trackingController) =
        completedApp\<lparr>Status := (Status completedApp)\<lparr>ExecutorState := Some fmempty\<rparr>\<rparr>
   \<and> fmlookup (runningApps allocatedController) (executorAppID pendingExecutor) =
        Some allocatedApp
   \<and> ExecutorState (Status allocatedApp) \<noteq> None
   \<and> processSingleExecutorStateUpdate conflictEnv pendingExecutor allocatedController =
        allocatedController\<lparr>calls := [UpdateFuncCall]\<rparr>"
proof -
  have h: "executorPodState pendingExecutor = ExecutorPendingState"
    by (simp add: pendingExecutor_def)
  have n: "ExecutorState (Status completedApp) = None"
    by (simp add: completedApp_def emptyStatus_def)
  have t: "fmlookup (runningApps allocatedController) (executorAppID pendingExecutor) =
             Some allocatedApp"
    by (simp add: allocatedController_def pendingExecutor_def)
  have a: "ExecutorState (Status allocatedApp) \<noteq> None"
    by (simp add: allocatedApp_def)
  have c: "calls allocatedController = []"
    by (simp add: allocatedController_def trackingController_def)
  from pending_executor_no_entry[OF h, of completedApp trackingController conflictEnv] h n
  have first: "executorEntry (fst (executorUpdateFunc pendingExecutor completedApp
                 trackingController)) ''pi-exec-1'' = None
     \<and> fst (executorUpdateFunc pendingExecutor completedApp trackingController) =
        completedApp\<lparr>Status := (Status completedApp)\<lparr>ExecutorState := Some fmempty\<rparr>\<rparr>"
    by (simp add: executorEntry_def)
  from pending_executor_no_entry[OF h, of allocatedApp allocatedController conflictEnv] t a
  have "processSingleExecutorStateUpdate conflictEnv pendingExecutor allocatedController =
          allocatedController\<lparr>calls := calls allocatedController @ [UpdateFuncCall]\<rparr>"
    by blast
  with first h t a c show ?thesis by (simp add: executorEntry_def)
qed


subsection \<open>The dispatcher and the registry\<close>

lemma submitAppUpdateFunc_frame:
  "runningApps (snd (submitAppUpdateFunc e resubmission a s)) = runningApps s
   \<and> recorder (snd (submitAppUpdateFunc e resubmission a s)) = recorder s
   \<and> runner (snd (submitAppUpdateFunc e resubmission a s)) = runner s"
  using submitAppUpdateFunc_state[of e resubmission a s] by auto

lemma driverUpdateFunc_frame:
  "runningApps (snd (driverUpdateFunc e update a s)) = runningApps s
   \<and> recorder (snd (driverUpdateFunc e update a s)) = recorder s
   \<and> runner (snd (driverUpdateFunc e update a s)) = runner s"
  using driverUpdateFunc_state[of e update a s] by auto

text \<open>What \<open>submitApp\<close> does once the status updater has answered.\<close>

lemma submitApp_abandoned:
  "updateSparkApplicationWithRetries e app app (submitAppUpdateFunc e resubmission) s = (None, s1)
   \<Longrightarrow> submitApp e app resubmission s = s1"
  by (simp add: submitApp_def)

lemma submitApp_registered:
  assumes "updateSparkApplicationWithRetries e app app (submitAppUpdateFunc e resubmission) s =
             (Some updatedApp, s1)"
  shows "runningApps (submitApp e app resubmission s) =
           fmupd (AppID (Status updatedApp)) updatedApp (runningApps s1)"
    and "recorder (submitApp e app resubmission s) = recorder s1"
    and "glog (submitApp e app resubmission s) =
           glog s1 @ (case snd (buildSubmissionCommandArgs e updatedApp) of
                        None \<Rightarrow> []
                      | Some er \<Rightarrow> [FailedToBuildSubmissionCommand (Name updatedApp) er])"
    and "runner (submitApp e app resubmission s) =
           runner s1 @ (if \<not> SubmissionByUser (Spec updatedApp)
                        then [Submission (fst (buildSubmissionCommandArgs e updatedApp)) updatedApp]
                        else [])"
  using assms
  by (simp_all add: submitApp_def Let_def split: prod.splits option.splits)

lemma submitApp_updater_frame:
  "runningApps (snd (updateSparkApplicationWithRetries e app app
       (submitAppUpdateFunc e resubmission) s)) = runningApps s
   \<and> recorder (snd (updateSparkApplicationWithRetries e app app
       (submitAppUpdateFunc e resubmission) s)) = recorder s
   \<and> runner (snd (updateSparkApplicationWithRetries e app app
       (submitAppUpdateFunc e resubmission) s)) = runner s"
  unfolding updateSparkApplicationWithRetries_def
  by (rule updateLoop_frame) (rule submitAppUpdateFunc_frame)

lemma submitApp_recorder: "recorder (submitApp e app resubmission s) = recorder s"
proof (cases "updateSparkApplicationWithRetries e app app (submitAppUpdateFunc e resubmission) s")
  case (Pair r s1)
  with submitApp_updater_frame[of e app resubmission s] have f: "recorder s1 = recorder s" by simp
  show ?thesis
  proof (cases r)
    case None
    with Pair f show ?thesis by (simp add: submitApp_abandoned)
  next
    case (Some updatedApp)
    with Pair f show ?thesis by (simp add: submitApp_registered(2))
  qed
qed

subsection \<open>Restart eligibility\<close>

text \<open>
  Claim C4. For a record in a terminal state, \<open>handleRestart\<close> is the resubmission
  (the resubmission event, then \<open>submitApp\<close> with the flag that clears the status) if the
  policy is Always, or OnFailure with the state Failed, and does nothing otherwise. The
  recorder shows which of the two happened.
\<close>

theorem restart_eligibility:
  assumes "State (AppState (Status app)) \<in> {CompletedState, FailedState}"
    and "policy \<in> {Never, OnFailure, Always, Undefined}"
    and "RestartPolicy (Spec app) = policy"
  shows "handleRestart e app s =
           (if policy = Always \<or> (policy = OnFailure \<and> State (AppState (Status app)) = FailedState)
            then submitApp e app True
                   (s\<lparr>recorder := recorder s @
                         [Event ''SparkApplicationResubmission'' (Name app)]\<rparr>)
            else s)
       \<and> recorder (handleRestart e app s) =
           (if policy = Always \<or> (policy = OnFailure \<and> State (AppState (Status app)) = FailedState)
            then recorder s @ [Event ''SparkApplicationResubmission'' (Name app)]
            else recorder s)"
  using assms by (cases policy) (auto simp add: handleRestart_def submitApp_recorder)

theorem restart_eligibility_witness:
  "State (AppState (Status completedApp)) \<in> {CompletedState, FailedState}
   \<and> Always \<in> {Never, OnFailure, Always, Undefined}
   \<and> RestartPolicy (Spec completedApp) = Always
   \<and> handleRestart acceptingEnv completedApp trackingController =
       submitApp acceptingEnv completedApp True
         (trackingController\<lparr>recorder := [Event ''SparkApplicationResubmission'' ''pi'']\<rparr>)
   \<and> recorder (handleRestart acceptingEnv completedApp trackingController) =
       [Event ''SparkApplicationResubmission'' ''pi'']"
proof -
  have h1: "State (AppState (Status completedApp)) \<in> {CompletedState, FailedState}"
    by (simp add: completedApp_def emptyStatus_def)
  have h2: "Always \<in> {Never, OnFailure, Always, Undefined}" by simp
  have h3: "RestartPolicy (Spec completedApp) = Always"
    by (simp add: completedApp_def piApp_def)
  have n: "Name completedApp = ''pi''" "recorder trackingController = []"
    by (simp_all add: completedApp_def piApp_def trackingController_def)
  from restart_eligibility[OF h1 h2 h3, of acceptingEnv trackingController] h1 h2 h3 n
  show ?thesis by (simp add: submitApp_recorder)
qed

subsection \<open>A failed build of the submission command\<close>

lemma submitApp_build_failure:
  assumes "updateSparkApplicationWithRetries e app app (submitAppUpdateFunc e resubmission) s =
             (Some updatedApp, s1)"
    and "buildSubmissionCommandArgs e updatedApp = (submissionCmdArgs, Some err)"
    and "\<not> SubmissionByUser (Spec updatedApp)"
  shows "runner (submitApp e app resubmission s) =
           runner s @ [Submission submissionCmdArgs updatedApp]"
  using submitApp_registered(4)[OF assms(1)] assms(2,3)
    submitApp_updater_frame[of e app resubmission s] assms(1)
  by simp

text \<open>
  Claim C3 at a concrete input: a new application that the store accepts and whose
  submission command cannot be built. The error is logged and the application stays
  registered in state New, and a request with the arguments that came with the error is
  handed to the submission runner all the same.
\<close>

theorem build_failure_still_submits:
  "snd (buildSubmissionCommandArgs brokenBuildEnv
          (piApp\<lparr>Status := emptyStatus
             \<lparr>AppID := ''pi-1181'', AppState := \<lparr>State = NewState, ErrorMessage = []\<rparr>\<rparr>\<rparr>)) =
     Some (Error ''no main application file'')
   \<and> glog (submitApp brokenBuildEnv piApp False emptyController) =
       [FailedToBuildSubmissionCommand ''pi'' (Error ''no main application file'')]
   \<and> fmlookup (runningApps (submitApp brokenBuildEnv piApp False emptyController)) ''pi-1181'' =
       Some (piApp\<lparr>Status := emptyStatus
               \<lparr>AppID := ''pi-1181'', AppState := \<lparr>State = NewState, ErrorMessage = []\<rparr>\<rparr>\<rparr>)
   \<and> runner (submitApp brokenBuildEnv piApp False emptyController) =
       [Submission []
          (piApp\<lparr>Status := emptyStatus
             \<lparr>AppID := ''pi-1181'', AppState := \<lparr>State = NewState, ErrorMessage = []\<rparr>\<rparr>\<rparr>)]"
  by code_simp

subsection \<open>The registry never loses an entry except by a deletion\<close>

lemma storesAtMost_keeps:
  "storesAtMost s s' \<Longrightarrow> k |\<in>| fmdom (runningApps s) \<Longrightarrow> k |\<in>| fmdom (runningApps s')"
  by (auto simp add: storesAtMost_def)

lemma submitApp_storesAtMost: "storesAtMost s (submitApp e app resubmission s)"
proof (cases "updateSparkApplicationWithRetries e app app (submitAppUpdateFunc e resubmission) s")
  case (Pair r s1)
  with submitApp_updater_frame[of e app resubmission s]
  have f: "runningApps s1 = runningApps s" by simp
  show ?thesis
  proof (cases r)
    case None
    with Pair f show ?thesis by (simp add: submitApp_abandoned storesAtMost_def)
  next
    case (Some updatedApp)
    with Pair f submitApp_registered(1)[of e app resubmission s updatedApp s1]
    show ?thesis by (auto simp add: storesAtMost_def)
  qed
qed

lemma handleRestart_storesAtMost: "storesAtMost s (handleRestart e app s)"
proof -
  have "storesAtMost s s" by (simp add: storesAtMost_def)
  moreover have "storesAtMost s (submitApp e app True
      (s\<lparr>recorder := recorder s @ [Event ''SparkApplicationResubmission'' (Name app)]\<rparr>))"
    using submitApp_storesAtMost[of
        "s\<lparr>recorder := recorder s @ [Event ''SparkApplicationResubmission'' (Name app)]\<rparr>"
        e app True]
    by (simp add: storesAtMost_def)
  ultimately show ?thesis by (simp add: handleRestart_def)
qed

lemma onAdd_storesAtMost: "storesAtMost s (onAdd e app s)"
  using submitApp_storesAtMost[of
      "s\<lparr>recorder := recorder s @ [Event ''SparkApplicationSubmission'' (Name app)]\<rparr>"
      e app False]
  by (simp add: storesAtMost_def onAdd_def)

lemma reducer_updater_frame:
  assumes "\<And>a s. runningApps (snd (updateFunc a s)) = runningApps s
                  \<and> recorder (snd (updateFunc a s)) = recorder s
                  \<and> runner (snd (updateFunc a s)) = runner s"
  shows "runningApps (snd (updateSparkApplicationWithRetries e app app updateFunc s)) =
           runningApps s"
  unfolding updateSparkApplicationWithRetries_def
  using updateLoop_frame[of updateFunc e 0 app app s] assms by blast

lemma processSingleAppStateUpdate_storesAtMost:
  "storesAtMost s (processSingleAppStateUpdate e update s)"
proof (cases "fmlookup (runningApps s) (appID update)")
  case None
  then show ?thesis by (simp add: processSingleAppStateUpdate_def storesAtMost_def)
next
  case (Some app)
  obtain r s1 where u: "updateSparkApplicationWithRetries e app app (appUpdateFunc update) s = (r, s1)"
    by (cases "updateSparkApplicationWithRetries e app app (appUpdateFunc update) s")
  with reducer_updater_frame[of "appUpdateFunc update" e app s]
  have f: "runningApps s1 = runningApps s" by (simp add: appUpdateFunc_state)
  show ?thesis
    using Some u f
    by (cases r) (auto simp add: processSingleAppStateUpdate_def storesAtMost_def Let_def)
qed

lemma processSingleExecutorStateUpdate_storesAtMost:
  "storesAtMost s (processSingleExecutorStateUpdate e update s)"
proof (cases "fmlookup (runningApps s) (executorAppID update)")
  case None
  then show ?thesis by (simp add: processSingleExecutorStateUpdate_def storesAtMost_def)
next
  case (Some app)
  obtain r s1 where
    u: "updateSparkApplicationWithRetries e app app (executorUpdateFunc update) s = (r, s1)"
    by (cases "updateSparkApplicationWithRetries e app app (executorUpdateFunc update) s")
  with reducer_updater_frame[of "executorUpdateFunc update" e app s]
  have f: "runningApps s1 = runningApps s" by (simp add: executorUpdateFunc_state)
  show ?thesis
    using Some u f
    by (cases r) (auto simp add: processSingleExecutorStateUpdate_def storesAtMost_def)
qed

lemma processSingleDriverStateUpdate_storesAtMost:
  "storesAtMost s (snd (processSingleDriverStateUpdate e update s))"
proof (cases "fmlookup (runningApps s) (driverAppID update)")
  case None
  then show ?thesis by (simp add: processSingleDriverStateUpdate_def storesAtMost_def)
next
  case (Some app)
  obtain r s1 where
    u: "updateSparkApplicationWithRetries e app app (driverUpdateFunc e update) s = (r, s1)"
    by (cases "updateSparkApplicationWithRetries e app app (driverUpdateFunc e update) s")
  with reducer_updater_frame[of "driverUpdateFunc e update" e app s, OF driverUpdateFunc_frame]
  have f: "runningApps s1 = runningApps s" by simp
  show ?thesis
    using Some u f
    by (cases r) (auto simp add: processSingleDriverStateUpdate_def storesAtMost_def)
qed

lemma onDelete_runningApps:
  "runningApps (onDelete app s) = fmdrop (AppID (Status app)) (runningApps s)"
  by (simp add: onDelete_def Let_def)

lemma dispatch_keeps:
  assumes "k |\<in>| fmdom (runningApps s)"
    and "\<And>d. operation = OnDelete d \<Longrightarrow> AppID (Status d) \<noteq> k"
  shows "k |\<in>| fmdom (runningApps (dispatch e operation s))"
proof (cases operation)
  case (OnAdd app)
  with assms(1) storesAtMost_keeps[OF onAdd_storesAtMost] show ?thesis by simp
next
  case (OnDelete d)
  with assms show ?thesis by (simp add: onDelete_runningApps)
next
  case (AppStateUpdate u)
  with assms(1) storesAtMost_keeps[OF processSingleAppStateUpdate_storesAtMost]
  show ?thesis by simp
next
  case (DriverStateUpdate u)
  with assms(1) storesAtMost_keeps[OF processSingleDriverStateUpdate_storesAtMost]
  show ?thesis by simp
next
  case (ExecutorStateUpdate u)
  with assms(1) storesAtMost_keeps[OF processSingleExecutorStateUpdate_storesAtMost]
  show ?thesis by simp
next
  case (HandleRestart app)
  with assms(1) storesAtMost_keeps[OF handleRestart_storesAtMost] show ?thesis by simp
qed

lemma run_keeps:
  "k |\<in>| fmdom (runningApps s) \<Longrightarrow>
   \<forall>d. OnDelete d \<in> set operations \<longrightarrow> AppID (Status d) \<noteq> k \<Longrightarrow>
   k |\<in>| fmdom (runningApps (run e operations s))"
proof (induction operations arbitrary: s)
  case Nil
  then show ?case by simp
next
  case (Cons operation operations)
  from Cons.prems have "k |\<in>| fmdom (runningApps (dispatch e operation s))"
    by (intro dispatch_keeps) auto
  with Cons.IH[of "dispatch e operation s"] Cons.prems(2) show ?case by simp
qed


subsection \<open>The stale entry of a restarted application\<close>

text \<open>
  Claim C10 as the spec states it fails in two ways. The new appID is a 32-bit hash of the
  clock reading and need not differ from the old one: with a hash that collides, the
  resubmission overwrites the old record, and the registry holds one entry after the
  restart. And a delete notification that carries the old appID removes the old entry.
\<close>

theorem restart_keeps_stale_entry_counterexample:
  "fmlookup (runningApps trackingController) ''pi-1'' = Some completedApp
   \<and> runningApps (handleRestart collidingEnv completedApp trackingController) =
       fmupd ''pi-1''
         (piApp\<lparr>Status := emptyStatus
            \<lparr>AppID := ''pi-1'', AppState := \<lparr>State = NewState, ErrorMessage = []\<rparr>\<rparr>\<rparr>)
         fmempty
   \<and> fmlookup (runningApps (handleRestart collidingEnv completedApp trackingController))
        ''pi-1'' \<noteq> Some completedApp
   \<and> fmdom (runningApps (handleRestart collidingEnv completedApp trackingController)) =
       {|''pi-1''|}
   \<and> fmlookup (runningApps (run acceptingEnv [OnDelete completedApp]
        (handleRestart acceptingEnv completedApp trackingController))) ''pi-1'' = None"
proof -
  have before: "fmlookup (runningApps trackingController) ''pi-1'' = Some completedApp"
    by (simp add: trackingController_def)
  have after: "runningApps (handleRestart collidingEnv completedApp trackingController) =
       fmupd ''pi-1''
         (piApp\<lparr>Status := emptyStatus
            \<lparr>AppID := ''pi-1'', AppState := \<lparr>State = NewState, ErrorMessage = []\<rparr>\<rparr>\<rparr>)
         fmempty"
    by code_simp
  have replaced: "fmlookup (runningApps (handleRestart collidingEnv completedApp
        trackingController)) ''pi-1'' \<noteq> Some completedApp"
    unfolding after by (simp add: completedApp_def piApp_def emptyStatus_def)
  have one: "fmdom (runningApps (handleRestart collidingEnv completedApp trackingController)) =
       {|''pi-1''|}"
    by (simp add: after)
  have deleted: "fmlookup (runningApps (run acceptingEnv [OnDelete completedApp]
        (handleRestart acceptingEnv completedApp trackingController))) ''pi-1'' = None"
    by (simp add: onDelete_runningApps completedApp_def emptyStatus_def)
  from before after replaced one deleted show ?thesis by (intro conjI)
qed

text \<open>
  Claim C10, as amended. Let the registry hold \<open>app\<close> under its appID, let the restart
  policy make \<open>handleRestart\<close> resubmit it, and let the status updater persist the
  resubmission and return \<open>updatedApp\<close>. The restart stores \<open>updatedApp\<close> under its
  appID and removes no key. When the new appID differs from the old one, the old record
  remains under the old appID, so that the registry holds both, and the delete notification
  for the restarted resource drops the new entry and leaves the old one; when the two
  appIDs are equal, the old record is overwritten. \<open>onDelete\<close> drops the one appID that
  the status of the deleted record carries. In every history of the controller that has no
  delete notification carrying the old appID, the old appID stays in the registry.
\<close>

theorem restart_keeps_stale_entry:
  assumes tracked: "fmlookup (runningApps s) (AppID (Status app)) = Some app"
    and eligible: "RestartPolicy (Spec app) = Always
                   \<or> (RestartPolicy (Spec app) = OnFailure
                       \<and> State (AppState (Status app)) = FailedState)"
    and persisted: "updateSparkApplicationWithRetries e app app (submitAppUpdateFunc e True)
                      (s\<lparr>recorder := recorder s @
                           [Event ''SparkApplicationResubmission'' (Name app)]\<rparr>) =
                    (Some updatedApp, s1)"
  shows "runningApps (handleRestart e app s) =
           fmupd (AppID (Status updatedApp)) updatedApp (runningApps s)
       \<and> fmdom (runningApps (handleRestart e app s)) =
           finsert (AppID (Status updatedApp)) (fmdom (runningApps s))
       \<and> (AppID (Status updatedApp) \<noteq> AppID (Status app) \<longrightarrow>
            fmlookup (runningApps (handleRestart e app s)) (AppID (Status app)) = Some app
            \<and> fmlookup (runningApps (handleRestart e app s)) (AppID (Status updatedApp)) =
                Some updatedApp
            \<and> fmlookup (runningApps (onDelete updatedApp (handleRestart e app s)))
                (AppID (Status updatedApp)) = None
            \<and> fmlookup (runningApps (onDelete updatedApp (handleRestart e app s)))
                (AppID (Status app)) = Some app)
       \<and> (AppID (Status updatedApp) = AppID (Status app) \<longrightarrow>
            fmlookup (runningApps (handleRestart e app s)) (AppID (Status app)) =
              Some updatedApp)
       \<and> (\<forall>d. runningApps (onDelete d (handleRestart e app s)) =
                fmdrop (AppID (Status d)) (runningApps (handleRestart e app s)))
       \<and> (\<forall>operations.
            (\<forall>d. OnDelete d \<in> set operations \<longrightarrow> AppID (Status d) \<noteq> AppID (Status app)) \<longrightarrow>
            AppID (Status app) |\<in>|
              fmdom (runningApps (run e operations (handleRestart e app s))))"
proof -
  let ?s0 = "s\<lparr>recorder := recorder s @ [Event ''SparkApplicationResubmission'' (Name app)]\<rparr>"
  from eligible have h: "handleRestart e app s = submitApp e app True ?s0"
    by (auto simp add: handleRestart_def)
  from submitApp_updater_frame[of e app True ?s0] persisted
  have f: "runningApps s1 = runningApps s" by simp
  from submitApp_registered(1)[OF persisted] f h
  have r: "runningApps (handleRestart e app s) =
             fmupd (AppID (Status updatedApp)) updatedApp (runningApps s)"
    by simp
  from r have dom: "fmdom (runningApps (handleRestart e app s)) =
           finsert (AppID (Status updatedApp)) (fmdom (runningApps s))"
    by simp
  have del: "\<forall>d. runningApps (onDelete d (handleRestart e app s)) =
                fmdrop (AppID (Status d)) (runningApps (handleRestart e app s))"
    by (simp add: onDelete_runningApps)
  have two: "AppID (Status updatedApp) \<noteq> AppID (Status app) \<longrightarrow>
            fmlookup (runningApps (handleRestart e app s)) (AppID (Status app)) = Some app
            \<and> fmlookup (runningApps (handleRestart e app s)) (AppID (Status updatedApp)) =
                Some updatedApp
            \<and> fmlookup (runningApps (onDelete updatedApp (handleRestart e app s)))
                (AppID (Status updatedApp)) = None
            \<and> fmlookup (runningApps (onDelete updatedApp (handleRestart e app s)))
                (AppID (Status app)) = Some app"
    using r tracked by (simp add: onDelete_runningApps)
  have one: "AppID (Status updatedApp) = AppID (Status app) \<longrightarrow>
            fmlookup (runningApps (handleRestart e app s)) (AppID (Status app)) =
              Some updatedApp"
    using r by simp
  from dom tracked have "AppID (Status app) |\<in>| fmdom (runningApps (handleRestart e app s))"
    by (simp add: fmdomI)
  then have hist: "\<forall>operations.
            (\<forall>d. OnDelete d \<in> set operations \<longrightarrow> AppID (Status d) \<noteq> AppID (Status app)) \<longrightarrow>
            AppID (Status app) |\<in>|
              fmdom (runningApps (run e operations (handleRestart e app s)))"
    by (simp add: run_keeps)
  from r dom two one del hist show ?thesis by (intro conjI)
qed

lemma restart_of_completedApp:
  "updateSparkApplicationWithRetries acceptingEnv completedApp completedApp
     (submitAppUpdateFunc acceptingEnv True)
     (trackingController\<lparr>recorder := recorder trackingController @
        [Event ''SparkApplicationResubmission'' (Name completedApp)]\<rparr>) =
   (Some restartedApp,
    trackingController
      \<lparr>world := \<lparr>remoteApp = restartedApp, clock = 10\<rparr>,
       calls := [UpdateFuncCall, ClientUpdate restartedApp],
       recorder := [Event ''SparkApplicationResubmission'' ''pi'']\<rparr>)"
  by code_simp

theorem restart_keeps_stale_entry_witness:
  "fmlookup (runningApps trackingController) (AppID (Status completedApp)) = Some completedApp
   \<and> RestartPolicy (Spec completedApp) = Always
   \<and> AppID (Status restartedApp) \<noteq> AppID (Status completedApp)
   \<and> runningApps (handleRestart acceptingEnv completedApp trackingController) =
       fmupd ''pi-1181'' restartedApp (fmupd ''pi-1'' completedApp fmempty)
   \<and> fmlookup (runningApps (handleRestart acceptingEnv completedApp trackingController))
        ''pi-1'' = Some completedApp
   \<and> fmlookup (runningApps (handleRestart acceptingEnv completedApp trackingController))
        ''pi-1181'' = Some restartedApp
   \<and> Name restartedApp = Name completedApp
   \<and> fmlookup (runningApps (onDelete restartedApp
        (handleRestart acceptingEnv completedApp trackingController))) ''pi-1181'' = None
   \<and> fmlookup (runningApps (onDelete restartedApp
        (handleRestart acceptingEnv completedApp trackingController))) ''pi-1'' =
        Some completedApp
   \<and> ''pi-1'' |\<in>| fmdom (runningApps (run acceptingEnv
        [OnDelete restartedApp, ExecutorStateUpdate runningExecutor,
         DriverStateUpdate succeededDriver, AppStateUpdate failedSubmissionUpdate]
        (handleRestart acceptingEnv completedApp trackingController)))"
proof -
  have h1: "fmlookup (runningApps trackingController) (AppID (Status completedApp)) =
              Some completedApp"
    by (simp add: trackingController_def completedApp_def emptyStatus_def)
  have h2: "RestartPolicy (Spec completedApp) = Always
            \<or> (RestartPolicy (Spec completedApp) = OnFailure
                \<and> State (AppState (Status completedApp)) = FailedState)"
    by (simp add: completedApp_def piApp_def)
  have h4: "AppID (Status restartedApp) \<noteq> AppID (Status completedApp)"
    by (simp add: restartedApp_def completedApp_def emptyStatus_def)
  have ids: "AppID (Status restartedApp) = ''pi-1181''" "AppID (Status completedApp) = ''pi-1''"
    "Name restartedApp = Name completedApp" "RestartPolicy (Spec completedApp) = Always"
    "runningApps trackingController = fmupd ''pi-1'' completedApp fmempty"
    by (simp_all add: restartedApp_def completedApp_def piApp_def emptyStatus_def
          trackingController_def)
  have ops: "\<forall>d. OnDelete d \<in> set [OnDelete restartedApp, ExecutorStateUpdate runningExecutor,
         DriverStateUpdate succeededDriver, AppStateUpdate failedSubmissionUpdate] \<longrightarrow>
         AppID (Status d) \<noteq> AppID (Status completedApp)"
    using h4 by simp
  note t = restart_keeps_stale_entry[OF h1 h2 restart_of_completedApp]
  from t ops have "AppID (Status completedApp) |\<in>| fmdom (runningApps (run acceptingEnv
        [OnDelete restartedApp, ExecutorStateUpdate runningExecutor,
         DriverStateUpdate succeededDriver, AppStateUpdate failedSubmissionUpdate]
        (handleRestart acceptingEnv completedApp trackingController)))"
    by blast
  with t h1 h4 ids show ?thesis by simp
qed


subsection \<open>Terminal states\<close>

text \<open>
  Where a returned record comes from: the store's answer to the write of a mutated working
  copy, which was the first working copy or a re-fetched record.
\<close>

lemma updateLoop_Some_invariant:
  assumes fetch: "\<And>w ns n r w'. clientGet e w ns n = (Inr r, w') \<Longrightarrow> I r"
    and step: "\<And>t s t' s1 w r w'. I t \<Longrightarrow> updateFunc t s = (t', s1) \<Longrightarrow>
                 clientUpdate e w t' = (Inr r, w') \<Longrightarrow> Q r"
  shows "I toUpdate \<Longrightarrow>
         updateLoop e i original toUpdate updateFunc s = (Some updated, s') \<Longrightarrow> Q updated"
proof (induction "maximumUpdateRetries - i" arbitrary: i toUpdate s)
  case 0
  then have "\<not> i < maximumUpdateRetries" by simp
  with 0 show ?case by (simp add: updateLoop_done)
next
  case (Suc n)
  show ?case
  proof (cases e i original toUpdate updateFunc s rule: updateLoop_cases)
    case exhausted
    with Suc.prems show ?thesis by simp
  next
    case (unchanged toUpdate' s1)
    with Suc.prems show ?thesis by simp
  next
    case (written toUpdate' s1 u w2)
    with Suc.prems(2) have "u = updated" by simp
    with step[OF Suc.prems(1) written(2) written(4)] show ?thesis by simp
  next
    case (refetch_failed toUpdate' s1 err w2 err' w3)
    with Suc.prems show ?thesis by simp
  next
    case (refetched toUpdate' s1 err w2 fetched w3)
    from Suc.hyps(2) have n: "n = maximumUpdateRetries - (i + 1)" by simp
    from fetch[OF refetched(5)] have "I fetched" .
    from Suc.hyps(1)[OF n this] refetched(6) Suc.prems(2) show ?thesis by simp
  qed
qed

lemma executorUpdateFunc_keeps_state:
  "State (AppState (Status (fst (executorUpdateFunc eu toUpdate s)))) =
     State (AppState (Status toUpdate))"
  by (simp add: executorUpdateFunc_def Let_def)

lemma appUpdateFunc_terminal_state:
  "isAppTerminated (State (AppState (Status toUpdate))) \<Longrightarrow>
   State (AppState (Status (fst (appUpdateFunc au toUpdate s)))) =
     (if state au = FailedSubmissionState then FailedSubmissionState
      else State (AppState (Status toUpdate)))"
  by (simp add: appUpdateFunc_def Let_def)

lemma processSingleExecutorStateUpdate_keeps_state:
  assumes echo: "\<forall>w a r w'. clientUpdate e w a = (Inr r, w') \<longrightarrow>
                   State (AppState (Status r)) = State (AppState (Status a))"
    and sync: "\<forall>w ns n r w'. clientGet e w ns n = (Inr r, w') \<longrightarrow>
                   State (AppState (Status r)) = State (AppState (Status app))"
    and tracked: "fmlookup (runningApps s) (executorAppID eu) = Some app"
  shows "\<exists>r. fmlookup (runningApps (processSingleExecutorStateUpdate e eu s)) (executorAppID eu) =
               Some r
             \<and> State (AppState (Status r)) = State (AppState (Status app))"
proof -
  obtain res s1 where
    u: "updateSparkApplicationWithRetries e app app (executorUpdateFunc eu) s = (res, s1)"
    by (cases "updateSparkApplicationWithRetries e app app (executorUpdateFunc eu) s")
  with reducer_updater_frame[of "executorUpdateFunc eu" e app s]
  have f: "runningApps s1 = runningApps s" by (simp add: executorUpdateFunc_state)
  show ?thesis
  proof (cases res)
    case None
    with u f tracked show ?thesis by (simp add: processSingleExecutorStateUpdate_def)
  next
    case (Some updated)
    have fetch: "\<And>w ns n r w'. clientGet e w ns n = (Inr r, w') \<Longrightarrow>
              State (AppState (Status r)) = State (AppState (Status app))"
      using sync by blast
    have step: "\<And>t s t' s1 w r w'.
              State (AppState (Status t)) = State (AppState (Status app)) \<Longrightarrow>
              executorUpdateFunc eu t s = (t', s1) \<Longrightarrow> clientUpdate e w t' = (Inr r, w') \<Longrightarrow>
              State (AppState (Status r)) = State (AppState (Status app))"
      using echo executorUpdateFunc_keeps_state by (metis fst_conv)
    have res: "updateLoop e 0 app app (executorUpdateFunc eu) s = (Some updated, s1)"
      using u Some by (simp add: updateSparkApplicationWithRetries_def)
    have "State (AppState (Status updated)) = State (AppState (Status app))"
      by (rule updateLoop_Some_invariant[where
            I = "\<lambda>r. State (AppState (Status r)) = State (AppState (Status app))"
            and Q = "\<lambda>r. State (AppState (Status r)) = State (AppState (Status app))"
            and e = e and updateFunc = "executorUpdateFunc eu" and toUpdate = app and i = 0
            and original = app and s = s and s' = s1 and updated = updated,
            OF fetch step refl res])
    with u f tracked Some show ?thesis
      by (simp add: processSingleExecutorStateUpdate_def)
  qed
qed

lemma processSingleAppStateUpdate_keeps_state:
  assumes echo: "\<forall>w a r w'. clientUpdate e w a = (Inr r, w') \<longrightarrow>
                   State (AppState (Status r)) = State (AppState (Status a))"
    and sync: "\<forall>w ns n r w'. clientGet e w ns n = (Inr r, w') \<longrightarrow>
                   State (AppState (Status r)) = State (AppState (Status app))"
    and tracked: "fmlookup (runningApps s) (appID au) = Some app"
    and terminal: "isAppTerminated (State (AppState (Status app)))"
  shows "\<exists>r. fmlookup (runningApps (processSingleAppStateUpdate e au s)) (appID au) = Some r
             \<and> (state au \<noteq> FailedSubmissionState \<longrightarrow>
                  State (AppState (Status r)) = State (AppState (Status app)))
             \<and> (state au = FailedSubmissionState \<longrightarrow>
                  State (AppState (Status r)) = FailedSubmissionState \<or> r = app)"
proof -
  let ?st = "if state au = FailedSubmissionState then FailedSubmissionState
             else State (AppState (Status app))"
  obtain res s1 where
    u: "updateSparkApplicationWithRetries e app app (appUpdateFunc au) s = (res, s1)"
    by (cases "updateSparkApplicationWithRetries e app app (appUpdateFunc au) s")
  with reducer_updater_frame[of "appUpdateFunc au" e app s]
  have f: "runningApps s1 = runningApps s" by (simp add: appUpdateFunc_state)
  show ?thesis
  proof (cases res)
    case None
    with u f tracked show ?thesis by (simp add: processSingleAppStateUpdate_def)
  next
    case (Some updated)
    have fetch: "\<And>w ns n r w'. clientGet e w ns n = (Inr r, w') \<Longrightarrow>
              State (AppState (Status r)) = State (AppState (Status app))"
      using sync by blast
    have step: "\<And>t s t' s1 w r w'.
              State (AppState (Status t)) = State (AppState (Status app)) \<Longrightarrow>
              appUpdateFunc au t s = (t', s1) \<Longrightarrow> clientUpdate e w t' = (Inr r, w') \<Longrightarrow>
              State (AppState (Status r)) = ?st"
    proof -
      fix t s t' s1 w r w'
      assume t: "State (AppState (Status t)) = State (AppState (Status app))"
        and m: "appUpdateFunc au t s = (t', s1)"
        and c: "clientUpdate e w t' = (Inr r, w')"
      from t terminal have "isAppTerminated (State (AppState (Status t)))" by simp
      from appUpdateFunc_terminal_state[OF this, of au s] m t
      have "State (AppState (Status t')) = ?st" by simp
      with echo c show "State (AppState (Status r)) = ?st" by metis
    qed
    have res: "updateLoop e 0 app app (appUpdateFunc au) s = (Some updated, s1)"
      using u Some by (simp add: updateSparkApplicationWithRetries_def)
    have "State (AppState (Status updated)) = ?st"
      by (rule updateLoop_Some_invariant[where
            I = "\<lambda>r. State (AppState (Status r)) = State (AppState (Status app))"
            and Q = "\<lambda>r. State (AppState (Status r)) = ?st"
            and e = e and updateFunc = "appUpdateFunc au" and toUpdate = app and i = 0
            and original = app and s = s and s' = s1 and updated = updated,
            OF fetch step refl res])
    with u f tracked Some show ?thesis
      by (auto simp add: processSingleAppStateUpdate_def Let_def)
  qed
qed

lemma appUpdateFunc_keeps_AppID:
  "AppID (Status (fst (appUpdateFunc au toUpdate s))) = AppID (Status toUpdate)"
  by (simp add: appUpdateFunc_def Let_def)

text \<open>
  Processing a FailedSubmission event on a tracked terminal record: when the status updater
  persists the update, the registry entry is in state FailedSubmission; when it does not,
  the entry is the old record.
\<close>

lemma processSingleAppStateUpdate_failed_submission:
  assumes echo: "\<forall>w a r w'. clientUpdate e w a = (Inr r, w') \<longrightarrow> Status r = Status a"
    and sync: "\<forall>w ns n r w'. clientGet e w ns n = (Inr r, w') \<longrightarrow>
                   State (AppState (Status r)) = State (AppState (Status app))
                   \<and> AppID (Status r) = AppID (Status app)"
    and tracked: "fmlookup (runningApps s) (appID au) = Some app"
    and key: "AppID (Status app) = appID au"
    and terminal: "isAppTerminated (State (AppState (Status app)))"
    and fs: "state au = FailedSubmissionState"
  shows "(fst (updateSparkApplicationWithRetries e app app (appUpdateFunc au) s) \<noteq> None \<longrightarrow>
           (\<exists>r. fmlookup (runningApps (processSingleAppStateUpdate e au s)) (appID au) = Some r
                \<and> State (AppState (Status r)) = FailedSubmissionState))
       \<and> (fst (updateSparkApplicationWithRetries e app app (appUpdateFunc au) s) = None \<longrightarrow>
           fmlookup (runningApps (processSingleAppStateUpdate e au s)) (appID au) = Some app)"
proof -
  obtain res s1 where
    u: "updateSparkApplicationWithRetries e app app (appUpdateFunc au) s = (res, s1)"
    by (cases "updateSparkApplicationWithRetries e app app (appUpdateFunc au) s")
  with reducer_updater_frame[of "appUpdateFunc au" e app s]
  have f: "runningApps s1 = runningApps s" by (simp add: appUpdateFunc_state)
  show ?thesis
  proof (cases res)
    case None
    with u f tracked show ?thesis by (simp add: processSingleAppStateUpdate_def)
  next
    case (Some updated)
    have fetch: "\<And>w ns n r w'. clientGet e w ns n = (Inr r, w') \<Longrightarrow>
              State (AppState (Status r)) = State (AppState (Status app))
              \<and> AppID (Status r) = AppID (Status app)"
      using sync by blast
    have step: "\<And>t s t' s1 w r w'.
              State (AppState (Status t)) = State (AppState (Status app))
              \<and> AppID (Status t) = AppID (Status app) \<Longrightarrow>
              appUpdateFunc au t s = (t', s1) \<Longrightarrow> clientUpdate e w t' = (Inr r, w') \<Longrightarrow>
              State (AppState (Status r)) = FailedSubmissionState
              \<and> AppID (Status r) = AppID (Status app)"
    proof -
      fix t s t' s1 w r w'
      assume t: "State (AppState (Status t)) = State (AppState (Status app))
              \<and> AppID (Status t) = AppID (Status app)"
        and m: "appUpdateFunc au t s = (t', s1)"
        and c: "clientUpdate e w t' = (Inr r, w')"
      from t terminal have "isAppTerminated (State (AppState (Status t)))" by simp
      from appUpdateFunc_terminal_state[OF this, of au s] m fs
      have st: "State (AppState (Status t')) = FailedSubmissionState" by simp
      from appUpdateFunc_keeps_AppID[of au t s] m t
      have id: "AppID (Status t') = AppID (Status app)" by simp
      from echo c have "Status r = Status t'" by blast
      with st id show "State (AppState (Status r)) = FailedSubmissionState
              \<and> AppID (Status r) = AppID (Status app)"
        by simp
    qed
    have res: "updateLoop e 0 app app (appUpdateFunc au) s = (Some updated, s1)"
      using u Some by (simp add: updateSparkApplicationWithRetries_def)
    have inv: "State (AppState (Status app)) = State (AppState (Status app))
          \<and> AppID (Status app) = AppID (Status app)"
      by simp
    have "State (AppState (Status updated)) = FailedSubmissionState
          \<and> AppID (Status updated) = AppID (Status app)"
      by (rule updateLoop_Some_invariant[where
            I = "\<lambda>r. State (AppState (Status r)) = State (AppState (Status app))
                     \<and> AppID (Status r) = AppID (Status app)"
            and Q = "\<lambda>r. State (AppState (Status r)) = FailedSubmissionState
                     \<and> AppID (Status r) = AppID (Status app)"
            and e = e and updateFunc = "appUpdateFunc au" and toUpdate = app and i = 0
            and original = app and s = s and s' = s1 and updated = updated,
            OF fetch step inv res])
    with u f key tracked Some show ?thesis
      by (simp add: processSingleAppStateUpdate_def Let_def)
  qed
qed

text \<open>
  Claim C2 as the spec states it fails for the processing of an event: after a write that
  the store refuses, the status updater goes on with the record it fetches, in whatever
  state the store holds it. Here the registry holds the run as completed, the store holds
  it as running, and a worker-lifecycle event leaves the registry entry in state Running.
\<close>

theorem terminal_state_counterexample:
  "map_option (\<lambda>r. State (AppState (Status r)))
     (fmlookup (runningApps divergedController) (executorAppID runningExecutor)) =
     Some CompletedState
   \<and> map_option (\<lambda>r. State (AppState (Status r)))
       (fmlookup (runningApps (processSingleExecutorStateUpdate divergedEnv runningExecutor
          divergedController)) (executorAppID runningExecutor)) =
     Some RunningState"
  by code_simp

text \<open>
  Claim C2, as amended. For a record whose \<open>appState.state\<close> is Completed or Failed: the
  worker-lifecycle mutation leaves \<open>appState.state\<close> as it is, and the
  submission-outcome mutation leaves it as it is unless the incoming state is
  FailedSubmission, which it assigns over the terminal state. For the processing of an
  event on the tracked record, let the store return every written record with the status
  it was sent, and every re-fetched record in the state and with the appID of the tracked
  one. Then the registry entry keeps its state after a worker-lifecycle event and after a
  submission-outcome event other than FailedSubmission. After a FailedSubmission event the
  entry is in state FailedSubmission when the status updater has persisted the update, and
  is the old record when it has not.
\<close>

theorem terminal_state_monotonicity:
  assumes "State (AppState (Status app)) = CompletedState
           \<or> State (AppState (Status app)) = FailedState"
  shows "State (AppState (Status (fst (executorUpdateFunc eu app s)))) =
           State (AppState (Status app))
       \<and> (state au \<noteq> FailedSubmissionState \<longrightarrow>
            State (AppState (Status (fst (appUpdateFunc au app s)))) =
              State (AppState (Status app)))
       \<and> (state au = FailedSubmissionState \<longrightarrow>
            State (AppState (Status (fst (appUpdateFunc au app s)))) = FailedSubmissionState)
       \<and> ((\<forall>w a r w'. clientUpdate e w a = (Inr r, w') \<longrightarrow> Status r = Status a)
            \<and> (\<forall>w ns n r w'. clientGet e w ns n = (Inr r, w') \<longrightarrow>
                State (AppState (Status r)) = State (AppState (Status app))
                \<and> AppID (Status r) = AppID (Status app)) \<longrightarrow>
            (fmlookup (runningApps s) (executorAppID eu) = Some app \<longrightarrow>
               (\<exists>r. fmlookup (runningApps (processSingleExecutorStateUpdate e eu s))
                      (executorAppID eu) = Some r
                    \<and> State (AppState (Status r)) = State (AppState (Status app))))
            \<and> (fmlookup (runningApps s) (appID au) = Some app
                 \<and> state au \<noteq> FailedSubmissionState \<longrightarrow>
               (\<exists>r. fmlookup (runningApps (processSingleAppStateUpdate e au s)) (appID au) =
                      Some r
                    \<and> State (AppState (Status r)) = State (AppState (Status app))))
            \<and> (fmlookup (runningApps s) (appID au) = Some app
                 \<and> AppID (Status app) = appID au
                 \<and> state au = FailedSubmissionState \<longrightarrow>
               (fst (updateSparkApplicationWithRetries e app app (appUpdateFunc au) s) \<noteq> None \<longrightarrow>
                  (\<exists>r. fmlookup (runningApps (processSingleAppStateUpdate e au s)) (appID au) =
                         Some r
                       \<and> State (AppState (Status r)) = FailedSubmissionState))
               \<and> (fst (updateSparkApplicationWithRetries e app app (appUpdateFunc au) s) = None \<longrightarrow>
                  fmlookup (runningApps (processSingleAppStateUpdate e au s)) (appID au) =
                    Some app)))"
proof -
  from assms have t: "isAppTerminated (State (AppState (Status app)))"
    by (simp add: isAppTerminated_def)
  have m1: "State (AppState (Status (fst (executorUpdateFunc eu app s)))) =
           State (AppState (Status app))"
    by (rule executorUpdateFunc_keeps_state)
  have m2: "state au \<noteq> FailedSubmissionState \<longrightarrow>
            State (AppState (Status (fst (appUpdateFunc au app s)))) =
              State (AppState (Status app))"
    and m3: "state au = FailedSubmissionState \<longrightarrow>
            State (AppState (Status (fst (appUpdateFunc au app s)))) = FailedSubmissionState"
    using appUpdateFunc_terminal_state[OF t, of au s] by simp_all
  have p: "(\<forall>w a r w'. clientUpdate e w a = (Inr r, w') \<longrightarrow> Status r = Status a)
            \<and> (\<forall>w ns n r w'. clientGet e w ns n = (Inr r, w') \<longrightarrow>
                State (AppState (Status r)) = State (AppState (Status app))
                \<and> AppID (Status r) = AppID (Status app)) \<longrightarrow>
            (fmlookup (runningApps s) (executorAppID eu) = Some app \<longrightarrow>
               (\<exists>r. fmlookup (runningApps (processSingleExecutorStateUpdate e eu s))
                      (executorAppID eu) = Some r
                    \<and> State (AppState (Status r)) = State (AppState (Status app))))
            \<and> (fmlookup (runningApps s) (appID au) = Some app
                 \<and> state au \<noteq> FailedSubmissionState \<longrightarrow>
               (\<exists>r. fmlookup (runningApps (processSingleAppStateUpdate e au s)) (appID au) =
                      Some r
                    \<and> State (AppState (Status r)) = State (AppState (Status app))))
            \<and> (fmlookup (runningApps s) (appID au) = Some app
                 \<and> AppID (Status app) = appID au
                 \<and> state au = FailedSubmissionState \<longrightarrow>
               (fst (updateSparkApplicationWithRetries e app app (appUpdateFunc au) s) \<noteq> None \<longrightarrow>
                  (\<exists>r. fmlookup (runningApps (processSingleAppStateUpdate e au s)) (appID au) =
                         Some r
                       \<and> State (AppState (Status r)) = FailedSubmissionState))
               \<and> (fst (updateSparkApplicationWithRetries e app app (appUpdateFunc au) s) = None \<longrightarrow>
                  fmlookup (runningApps (processSingleAppStateUpdate e au s)) (appID au) =
                    Some app))"
  proof (intro impI, elim conjE)
    assume echo: "\<forall>w a r w'. clientUpdate e w a = (Inr r, w') \<longrightarrow> Status r = Status a"
      and sync: "\<forall>w ns n r w'. clientGet e w ns n = (Inr r, w') \<longrightarrow>
                State (AppState (Status r)) = State (AppState (Status app))
                \<and> AppID (Status r) = AppID (Status app)"
    from echo have echo': "\<forall>w a r w'. clientUpdate e w a = (Inr r, w') \<longrightarrow>
        State (AppState (Status r)) = State (AppState (Status a))"
      by metis
    from sync have sync': "\<forall>w ns n r w'. clientGet e w ns n = (Inr r, w') \<longrightarrow>
        State (AppState (Status r)) = State (AppState (Status app))"
      by blast
    have x: "fmlookup (runningApps s) (executorAppID eu) = Some app \<longrightarrow>
               (\<exists>r. fmlookup (runningApps (processSingleExecutorStateUpdate e eu s))
                      (executorAppID eu) = Some r
                    \<and> State (AppState (Status r)) = State (AppState (Status app)))"
      using processSingleExecutorStateUpdate_keeps_state[OF echo' sync'] by blast
    have a: "fmlookup (runningApps s) (appID au) = Some app
                 \<and> state au \<noteq> FailedSubmissionState \<longrightarrow>
               (\<exists>r. fmlookup (runningApps (processSingleAppStateUpdate e au s)) (appID au) =
                      Some r
                    \<and> State (AppState (Status r)) = State (AppState (Status app)))"
      using processSingleAppStateUpdate_keeps_state[OF echo' sync' _ t, of s au] by blast
    have b: "fmlookup (runningApps s) (appID au) = Some app
                 \<and> AppID (Status app) = appID au
                 \<and> state au = FailedSubmissionState \<longrightarrow>
               (fst (updateSparkApplicationWithRetries e app app (appUpdateFunc au) s) \<noteq> None \<longrightarrow>
                  (\<exists>r. fmlookup (runningApps (processSingleAppStateUpdate e au s)) (appID au) =
                         Some r
                       \<and> State (AppState (Status r)) = FailedSubmissionState))
               \<and> (fst (updateSparkApplicationWithRetries e app app (appUpdateFunc au) s) = None \<longrightarrow>
                  fmlookup (runningApps (processSingleAppStateUpdate e au s)) (appID au) =
                    Some app)"
      using processSingleAppStateUpdate_failed_submission[OF echo sync _ _ t, of s au] by blast
    from x a b show "(fmlookup (runningApps s) (executorAppID eu) = Some app \<longrightarrow>
               (\<exists>r. fmlookup (runningApps (processSingleExecutorStateUpdate e eu s))
                      (executorAppID eu) = Some r
                    \<and> State (AppState (Status r)) = State (AppState (Status app))))
            \<and> (fmlookup (runningApps s) (appID au) = Some app
                 \<and> state au \<noteq> FailedSubmissionState \<longrightarrow>
               (\<exists>r. fmlookup (runningApps (processSingleAppStateUpdate e au s)) (appID au) =
                      Some r
                    \<and> State (AppState (Status r)) = State (AppState (Status app))))
            \<and> (fmlookup (runningApps s) (appID au) = Some app
                 \<and> AppID (Status app) = appID au
                 \<and> state au = FailedSubmissionState \<longrightarrow>
               (fst (updateSparkApplicationWithRetries e app app (appUpdateFunc au) s) \<noteq> None \<longrightarrow>
                  (\<exists>r. fmlookup (runningApps (processSingleAppStateUpdate e au s)) (appID au) =
                         Some r
                       \<and> State (AppState (Status r)) = FailedSubmissionState))
               \<and> (fst (updateSparkApplicationWithRetries e app app (appUpdateFunc au) s) = None \<longrightarrow>
                  fmlookup (runningApps (processSingleAppStateUpdate e au s)) (appID au) =
                    Some app))"
      by (intro conjI)
  qed
  from m1 m2 m3 p show ?thesis by (intro conjI)
qed

theorem terminal_state_monotonicity_witness:
  "(State (AppState (Status completedApp)) = CompletedState
     \<or> State (AppState (Status completedApp)) = FailedState)
   \<and> State (AppState (Status (fst (executorUpdateFunc runningExecutor completedApp
          trackingController)))) = CompletedState
   \<and> State (AppState (Status (fst (appUpdateFunc submittedUpdate completedApp
          trackingController)))) = CompletedState
   \<and> State (AppState (Status (fst (appUpdateFunc failedSubmissionUpdate completedApp
          trackingController)))) = FailedSubmissionState
   \<and> fmlookup (runningApps trackingController) ''pi-1'' = Some completedApp
   \<and> map_option (\<lambda>r. State (AppState (Status r)))
        (fmlookup (runningApps (processSingleExecutorStateUpdate settledEnv runningExecutor
           trackingController)) ''pi-1'') = Some CompletedState
   \<and> map_option (\<lambda>r. State (AppState (Status r)))
        (fmlookup (runningApps (processSingleAppStateUpdate settledEnv submittedUpdate
           trackingController)) ''pi-1'') = Some CompletedState
   \<and> fst (updateSparkApplicationWithRetries settledEnv completedApp completedApp
        (appUpdateFunc failedSubmissionUpdate) trackingController) \<noteq> None
   \<and> map_option (\<lambda>r. State (AppState (Status r)))
        (fmlookup (runningApps (processSingleAppStateUpdate settledEnv failedSubmissionUpdate
           trackingController)) ''pi-1'') = Some FailedSubmissionState"
proof -
  have h: "State (AppState (Status completedApp)) = CompletedState
     \<or> State (AppState (Status completedApp)) = FailedState"
    by (simp add: completedApp_def emptyStatus_def)
  have st: "State (AppState (Status completedApp)) = CompletedState"
    by (simp add: completedApp_def emptyStatus_def)
  have u: "state submittedUpdate \<noteq> FailedSubmissionState"
    "state failedSubmissionUpdate = FailedSubmissionState"
    by (simp_all add: submittedUpdate_def failedSubmissionUpdate_def)
  have k: "executorAppID runningExecutor = ''pi-1''" "appID submittedUpdate = ''pi-1''"
    "appID failedSubmissionUpdate = ''pi-1''" "AppID (Status completedApp) = ''pi-1''"
    by (simp_all add: runningExecutor_def pendingExecutor_def submittedUpdate_def
          failedSubmissionUpdate_def completedApp_def emptyStatus_def)
  have echo: "\<forall>w a r w'. clientUpdate settledEnv w a = (Inr r, w') \<longrightarrow> Status r = Status a"
    by (simp add: settledEnv_def acceptingEnv_def)
  have sync: "\<forall>w ns n r w'. clientGet settledEnv w ns n = (Inr r, w') \<longrightarrow>
          State (AppState (Status r)) = State (AppState (Status completedApp))
          \<and> AppID (Status r) = AppID (Status completedApp)"
    by (auto simp add: settledEnv_def)
  have tracked: "fmlookup (runningApps trackingController) ''pi-1'' = Some completedApp"
    by (simp add: trackingController_def)
  have persisted: "fst (updateSparkApplicationWithRetries settledEnv completedApp completedApp
        (appUpdateFunc failedSubmissionUpdate) trackingController) \<noteq> None"
    by code_simp
  note t1 = terminal_state_monotonicity[OF h, of runningExecutor trackingController
      submittedUpdate settledEnv]
  note t2 = terminal_state_monotonicity[OF h, of runningExecutor trackingController
      failedSubmissionUpdate settledEnv]
  from t1 u(1) st have a: "State (AppState (Status (fst (executorUpdateFunc runningExecutor
        completedApp trackingController)))) = CompletedState"
    "State (AppState (Status (fst (appUpdateFunc submittedUpdate completedApp
          trackingController)))) = CompletedState"
    by simp_all
  from t2 u(2) have b: "State (AppState (Status (fst (appUpdateFunc failedSubmissionUpdate
        completedApp trackingController)))) = FailedSubmissionState"
    by simp
  from t1 echo sync tracked k(1) st
  obtain r where "fmlookup (runningApps (processSingleExecutorStateUpdate settledEnv
        runningExecutor trackingController)) ''pi-1'' = Some r"
    "State (AppState (Status r)) = CompletedState"
    by auto
  then have c: "map_option (\<lambda>r. State (AppState (Status r)))
        (fmlookup (runningApps (processSingleExecutorStateUpdate settledEnv runningExecutor
           trackingController)) ''pi-1'') = Some CompletedState"
    by simp
  from t1 echo sync tracked k(2) u(1) st
  obtain r' where "fmlookup (runningApps (processSingleAppStateUpdate settledEnv
        submittedUpdate trackingController)) ''pi-1'' = Some r'"
    "State (AppState (Status r')) = CompletedState"
    by auto
  then have d: "map_option (\<lambda>r. State (AppState (Status r)))
        (fmlookup (runningApps (processSingleAppStateUpdate settledEnv submittedUpdate
           trackingController)) ''pi-1'') = Some CompletedState"
    by simp
  from t2 echo sync tracked k(3,4) u(2) persisted
  obtain r'' where "fmlookup (runningApps (processSingleAppStateUpdate settledEnv
        failedSubmissionUpdate trackingController)) ''pi-1'' = Some r''"
    "State (AppState (Status r'')) = FailedSubmissionState"
    by auto
  then have f: "map_option (\<lambda>r. State (AppState (Status r)))
        (fmlookup (runningApps (processSingleAppStateUpdate settledEnv failedSubmissionUpdate
           trackingController)) ''pi-1'') = Some FailedSubmissionState"
    by simp
  from h a b tracked c d persisted f show ?thesis by (intro conjI)
qed


subsection \<open>The loops of the reducers\<close>

text \<open>
  The loops of the source over their channels keep every entry of the registry as well; the
  loop of the driver-lifecycle reducer includes the restarts it triggers.
\<close>

lemma processAppStateUpdates_keeps:
  "k |\<in>| fmdom (runningApps s) \<Longrightarrow>
   k |\<in>| fmdom (runningApps (processAppStateUpdates e updates s))"
proof (induction updates arbitrary: s)
  case Nil
  then show ?case by simp
next
  case (Cons update updates)
  from storesAtMost_keeps[OF processSingleAppStateUpdate_storesAtMost Cons.prems]
  have "k |\<in>| fmdom (runningApps (processSingleAppStateUpdate e update s))" .
  from Cons.IH[OF this] show ?case by simp
qed

lemma processExecutorStateUpdates_keeps:
  "k |\<in>| fmdom (runningApps s) \<Longrightarrow>
   k |\<in>| fmdom (runningApps (processExecutorStateUpdates e updates s))"
proof (induction updates arbitrary: s)
  case Nil
  then show ?case by simp
next
  case (Cons update updates)
  from storesAtMost_keeps[OF processSingleExecutorStateUpdate_storesAtMost Cons.prems]
  have "k |\<in>| fmdom (runningApps (processSingleExecutorStateUpdate e update s))" .
  from Cons.IH[OF this] show ?case by simp
qed

lemma processDriverStateUpdates_keeps:
  "k |\<in>| fmdom (runningApps s) \<Longrightarrow>
   k |\<in>| fmdom (runningApps (processDriverStateUpdates e updates s))"
proof (induction updates arbitrary: s)
  case Nil
  then show ?case by simp
next
  case (Cons update updates)
  obtain r s1 where p: "processSingleDriverStateUpdate e update s = (r, s1)"
    by (cases "processSingleDriverStateUpdate e update s")
  from storesAtMost_keeps[OF processSingleDriverStateUpdate_storesAtMost Cons.prems, of e update] p
  have k1: "k |\<in>| fmdom (runningApps s1)" by simp
  show ?case
  proof (cases r)
    case None
    with p Cons.IH[OF k1] show ?thesis by simp
  next
    case (Some updatedApp)
    let ?s2 = "s1\<lparr>recorder := recorder s1 @
                 [Event ''SparkApplicationTermination'' (Name updatedApp)]\<rparr>"
    from k1 have "k |\<in>| fmdom (runningApps ?s2)" by simp
    from storesAtMost_keeps[OF handleRestart_storesAtMost this]
    have "k |\<in>| fmdom (runningApps (handleRestart e updatedApp ?s2))" .
    from Cons.IH[OF this] Cons.IH[OF k1] p Some show ?thesis by simp
  qed
qed

text \<open>
  The scenario of a driver that succeeds under the restart policy Always, evaluated: the
  run is recorded as completed under its appID and resubmitted under a new appID in state
  New; both entries are in the registry.
\<close>

lemma restart_after_driver_success:
  "runningApps (processDriverStateUpdates acceptingEnv [succeededDriver]
      (trackingController\<lparr>runningApps := fmupd ''pi-1'' runningApp fmempty\<rparr>)) =
   fmupd ''pi-1181'' restartedApp
     (fmupd ''pi-1''
        (runningApp\<lparr>Status := (Status runningApp)
           \<lparr>DriverInfo := \<lparr>WebUIServiceName = ''pi-ui-svc'', WebUIPort = 4040,
                           WebUIAddress = ''35.0.0.7:4040'', PodName = ''pi-driver''\<rparr>,
            AppState := \<lparr>State = CompletedState, ErrorMessage = []\<rparr>\<rparr>\<rparr>)
        fmempty)"
  by code_simp

end
